theory Spec2Isabelle
  imports Main
begin

section \<open>Python strings\<close>

text \<open>
  A Python \<^verbatim>\<open>str\<close> is a sequence of Unicode code points; it is modelled as the list of
  its code points. A literal of the source is written \<open>cp ''...''\<close> for its ASCII part,
  with the code points outside printable ASCII given as numbers.
\<close>

type_synonym pystr = "nat list"

definition cp :: "string \<Rightarrow> pystr" where
  "cp s = map of_char s"

text \<open>
  \<^verbatim>\<open>str.strip()\<close> with no argument removes leading and trailing whitespace; \<open>is_space\<close>
  lists the code points for which \<^verbatim>\<open>str.isspace()\<close> holds.
\<close>

definition is_space :: "nat \<Rightarrow> bool" where
  "is_space c \<longleftrightarrow>
     (9 \<le> c \<and> c \<le> 13) \<or> (28 \<le> c \<and> c \<le> 32) \<or> c = 133 \<or> c = 160 \<or> c = 5760 \<or>
     (8192 \<le> c \<and> c \<le> 8202) \<or> c = 8232 \<or> c = 8233 \<or> c = 8239 \<or> c = 8287 \<or> c = 12288"

definition strip :: "pystr \<Rightarrow> pystr" where
  "strip s = rev (dropWhile is_space (rev (dropWhile is_space s)))"

text \<open>
  \<^verbatim>\<open>str.lower()\<close>, in part: the ASCII capitals map to their small letters, and so does
  U+212A (KELVIN SIGN), whose lower case is the ASCII letter k. Every other code point is
  left as it is. So \<open>lower\<close> is \<^verbatim>\<open>str.lower()\<close> on the strings made of ASCII and uncased
  code points, which include every literal of the source (its code points outside ASCII
  are dashes, curly quotes, the ellipsis, the euro sign, the warning sign and its variation
  selector), and it is not \<^verbatim>\<open>str.lower()\<close> on the other cased letters: U+00C9 stays,
  where Python gives U+00E9. The difference changes neither the test for
  \<^verbatim>\<open>"rate limit"\<close> nor a lookup in the curated index: of the code points on which the two
  differ, only U+0130 has an ASCII letter in its lower case, which is i followed by U+0307,
  and U+0307 occurs neither in \<^verbatim>\<open>"rate limit"\<close> nor in a lowered curated question. A
  statement about an index built from arbitrary questions takes the lowering as a
  parameter (\<open>static_qa_with\<close> below).
\<close>

definition lower_cp :: "nat \<Rightarrow> nat" where
  "lower_cp c = (if 65 \<le> c \<and> c \<le> 90 then c + 32 else if c = 8490 then 107 else c)"

definition lower :: "pystr \<Rightarrow> pystr" where
  "lower s = map lower_cp s"

text \<open>The substring test \<^verbatim>\<open>sub in s\<close>.\<close>

fun contains :: "pystr \<Rightarrow> pystr \<Rightarrow> bool" where
  "contains sub [] = (sub = [])"
| "contains sub (c # cs) = (take (length sub) (c # cs) = sub \<or> contains sub cs)"

section \<open>The completion provider and the process state\<close>

text \<open>
  One call of \<^verbatim>\<open>openai.chat.completions.create\<close> together with the expression that
  reads the answer out of the response (line 363) either yields the message content, a
  string, or raises an \<^verbatim>\<open>Exception\<close> \<open>e\<close> inside the \<^verbatim>\<open>try\<close> block; \<open>Raises err\<close>
  carries \<^verbatim>\<open>str(e)\<close>. That covers an error of the API as well as a response without
  choices or without a string content, which raise at line 363 and are caught by the same
  \<^verbatim>\<open>except Exception\<close>.
\<close>

datatype provider_result = Completion pystr | Raises pystr

text \<open>
  The collaborators outside the program are oracles: \<open>provider e n question\<close> is what the
  \<open>n\<close>-th call of the provider in this process does when asked \<open>question\<close>, and
  \<open>upsert_outcome e n\<close> is \<open>None\<close> when the \<open>n\<close>-th upsert succeeds and \<open>Some err\<close> when it
  raises an exception whose text is \<open>err\<close>.
\<close>

record env =
  provider :: "nat \<Rightarrow> pystr \<Rightarrow> provider_result"
  upsert_outcome :: "nat \<Rightarrow> pystr option"

text \<open>
  A message of a transcript is a dict with the keys \<^verbatim>\<open>role\<close> and \<^verbatim>\<open>content\<close> and,
  on a static answer, \<^verbatim>\<open>is_static_answer\<close>. The code reads the last key only through
  \<^verbatim>\<open>msg.get("is_static_answer")\<close> in a condition, so an absent key is \<open>False\<close>.
\<close>

record message =
  role :: pystr
  content :: pystr
  is_static_answer :: bool

record chat =
  title :: pystr
  messages :: "message list"

text \<open>
  The state the modelled functions read and write:
  \<^item> \<open>cache\<close>: the memo table of \<^verbatim>\<open>@st.cache_data\<close> on \<^verbatim>\<open>ask_openai_cached\<close>, keyed by
    the argument;
  \<^item> \<open>bodies\<close>: the argument of every execution of the body of \<^verbatim>\<open>ask_openai_cached\<close>,
    in order;
  \<^item> \<open>requests\<close>: the user content of every call of the provider, in order;
  \<^item> \<open>sleeps\<close>: the argument of every \<^verbatim>\<open>time.sleep\<close>, in order;
  \<^item> \<open>table_rows\<close>: the rows of the table \<^verbatim>\<open>user_chats\<close>, keyed by the conflict target
    \<^verbatim>\<open>(user_email, chat_title)\<close> (the time stamp column is left out);
  \<^item> \<open>upserts\<close>: every upsert attempted, with its key and its document, in order;
  \<^item> \<open>errors\<close> and \<open>infos\<close>: the texts shown by \<^verbatim>\<open>st.error\<close> and \<^verbatim>\<open>st.info\<close>, in order.
\<close>

record world =
  cache :: "pystr \<rightharpoonup> pystr"
  bodies :: "pystr list"
  requests :: "pystr list"
  sleeps :: "nat list"
  table_rows :: "(pystr \<times> pystr) \<rightharpoonup> message list"
  upserts :: "((pystr \<times> pystr) \<times> message list) list"
  errors :: "pystr list"
  infos :: "pystr list"

section \<open>The completion client: ask\_openai\_cached\<close>

definition warning_marker :: pystr where
  "warning_marker = [9888, 65039]"

definition error_prefix :: pystr where
  "error_prefix = warning_marker @ cp '' Error: ''"

definition overload_message :: pystr where
  "overload_message = warning_marker @
     cp '' The system is receiving too many requests right now. Please try again in a few seconds.''"

text \<open>The test of line 366 on \<^verbatim>\<open>err = str(e)\<close>.\<close>

definition is_rate_limit :: "pystr \<Rightarrow> bool" where
  "is_rate_limit err \<longleftrightarrow> contains (cp ''rate limit'') (lower err) \<or> contains (cp ''429'') err"

text \<open>
  The loop \<^verbatim>\<open>for attempt in range(3)\<close> over the attempts that are left. Every
  exception of the \<^verbatim>\<open>try\<close> block is caught, and neither branch of the handler raises, so
  the result is always a string.
\<close>

fun ask_openai_attempts :: "env \<Rightarrow> pystr \<Rightarrow> nat list \<Rightarrow> world \<Rightarrow> pystr \<times> world" where
  "ask_openai_attempts e question [] w = (overload_message, w)"
| "ask_openai_attempts e question (attempt # rest) w =
     (let w1 = w\<lparr>requests := requests w @ [question]\<rparr> in
      case provider e (length (requests w)) question of
        Completion text \<Rightarrow> (strip text, w1)
      | Raises err \<Rightarrow>
          if is_rate_limit err
          then ask_openai_attempts e question rest (w1\<lparr>sleeps := sleeps w1 @ [5 * (attempt + 1)]\<rparr>)
          else (error_prefix @ err, w1))"

text \<open>The body of \<^verbatim>\<open>ask_openai_cached\<close>, and the function as decorated.\<close>

definition ask_openai_body :: "env \<Rightarrow> pystr \<Rightarrow> world \<Rightarrow> pystr \<times> world" where
  "ask_openai_body e question w =
     ask_openai_attempts e question [0..<3] (w\<lparr>bodies := bodies w @ [question]\<rparr>)"

definition ask_openai_cached :: "env \<Rightarrow> pystr \<Rightarrow> world \<Rightarrow> pystr \<times> world" where
  "ask_openai_cached e question w =
     (case cache w question of
        Some v \<Rightarrow> (v, w)
      | None \<Rightarrow>
          (case ask_openai_body e question w of
             (v, w') \<Rightarrow> (v, w'\<lparr>cache := (cache w')(question \<mapsto> v)\<rparr>)))"

text \<open>The time units slept so far.\<close>

definition waited :: "world \<Rightarrow> nat" where
  "waited w = sum_list (sleeps w)"

section \<open>The curated answers: load\_partner\_cache and STATIC\_QA\<close>

text \<open>
  An entry of the curated list. The entries that \<^verbatim>\<open>load_partner_cache\<close> stores carry a
  third key, \<^verbatim>\<open>embedding\<close>, which is always \<^verbatim>\<open>None\<close> and is never read; it is left out.
\<close>

record qa_pair =
  question :: pystr
  answer :: pystr

text \<open>The literal \<^verbatim>\<open>qa_pairs\<close> of \<^verbatim>\<open>load_partner_cache\<close>.\<close>

definition qa_pairs :: "qa_pair list" where
  "qa_pairs = [
     \<lparr>question =
          cp ''My chief stew and chef are in conflict two days before a busy charter. How do I '' @
          cp ''de-escalate this without taking sides or compromising service?'',
        answer =
          cp ''Speak to each individually first: listen, clarify facts, and separate emotion from '' @
          cp ''concrete issues (menus, timing, storage, service style). Restate the shared mission: '' @
          [39] @
          cp ''Our job for the next 7 days is to deliver a seamless guest experience; we can revisit '' @
          cp ''personal frustrations after the trip.'' @
          [39] @
          cp '' Agree on minimum operating rules: service times, handover points, communication '' @
          cp ''channel (e.g. one WhatsApp group, no side channels for ops). Put a simple, written '' @
          cp ''charter schedule in place (service times, special events, provisioning deadlines) and '' @
          cp ''confirm they both sign off. Monitor closely during the first 24 hours of charter and '' @
          cp ''give specific positive feedback when collaboration works ('' @
          [39] @
          cp ''That breakfast turn-around was spot on, thanks to both of you.'' @
          [39] @
          cp '').''\<rparr>,
     \<lparr>question =
          cp ''My rotation and leave plan looked fine on paper, but every season I end up with either '' @
          cp ''short-staffing or burnout. What'' @
          [8217] @
          cp ''s a better way to plan rotations?'',
        answer =
          cp ''Start from guest program + maintenance, not from crew headcount: map peak periods, '' @
          cp ''shipyard periods, crossings, owner weeks, and charters. Build a 12-month coverage '' @
          cp ''matrix: for each month, define minimum safe manning by department (bridge, interior, '' @
          cp ''deck, engineering, galley). Add buffer capacity around refit/yard and long crossings; '' @
          cp ''these are the highest fatigue zones. Use rotation templates (e.g. 2:2, 3:1) but adapt '' @
          cp ''per department; engineers and chefs often need different patterns than deck. Run a '' @
          cp ''stress-test: mark months where >30'' @
          [8211] @
          cp ''35% of the crew are '' @
          [39] @
          cp ''new'' @
          [39, 8212] @
          cp ''if that happens in peak guest periods, adjust hiring or contract dates.''\<rparr>,
     \<lparr>question =
          cp ''We'' @
          [8217] @
          cp ''re about to switch from private to charter under a different flag. What are the most '' @
          cp ''common compliance pitfalls captains miss in that transition?'',
        answer =
          cp ''Safety equipment & certification: ensure all lifesaving appliances, fire systems and '' @
          cp ''documentation match commercial requirements (not just private). ISM/ISPS documentation: '' @
          cp ''verify Safety Management System, drills records, and security plans are current and '' @
          cp ''aligned with the new flag/management company. Working/rest hours: move from '' @
          [39] @
          cp ''owner-flexible'' @
          [39] @
          cp '' to strictly recorded MLC compliance; audit your last 3 months to avoid surprises at '' @
          cp ''inspection. Crew qualifications: check each role'' @
          [8217] @
          cp ''s minimum safe manning certificate and endorsements for commercial operation. '' @
          cp ''Commercial paperwork: charter contracts, VAT handling, passenger limits '' @
          [8211] @
          cp '' coordinate early with management, broker and legal so you'' @
          [8217] @
          cp ''re aligned before the first charter.''\<rparr>,
     \<lparr>question =
          cp ''Port State Control and flag inspectors always seem to find something different. How can '' @
          cp ''I prepare for inspections in a way that'' @
          [8217] @
          cp ''s consistent and less stressful for the crew?'',
        answer =
          cp ''Keep a simple inspection folder (digital + physical) with: certificates, last '' @
          cp ''inspection report, corrective actions, crew lists, drills records and key checklists. '' @
          cp ''Run internal mini-inspections monthly: focus on basic items'' @
          [8212] @
          cp ''LSA, FFA, signage, doors/vents, muster lists, logbooks. Involve crew in the process: '' @
          cp ''assign each head of department 3'' @
          [8211] @
          cp ''5 common findings and make them responsible for '' @
          [39] @
          cp ''owning'' @
          [39] @
          cp '' those areas. After each real inspection, run a short '' @
          [39] @
          cp ''lessons learned'' @
          [39] @
          cp '' debrief and update your checklist; treat it as continuous improvement, not blame. '' @
          cp ''Maintain a calm, transparent tone with inspectors; when they see the ship is organised '' @
          cp ''and cooperative, inspections tend to be smoother.''\<rparr>,
     \<lparr>question =
          cp ''Our planned maintenance system is up to date on paper, but we still get nasty surprises '' @
          cp ''in-season (AC failures, sewage issues, stabilisers). What can we change?'',
        answer =
          cp ''Separate '' @
          [8220] @
          cp ''compliance maintenance'' @
          [8221] @
          cp '' (things you must log) from '' @
          [8220] @
          cp ''reliability maintenance'' @
          [8221] @
          cp '' (things that actually ruin a trip when they fail). Build a '' @
          [8220] @
          cp ''Top 20 Critical Failures'' @
          [8221] @
          cp '' list for your yacht (AC, sewage, stabilisers, generators, tenders, galley key '' @
          cp ''equipment) and add extra inspections there. Use data from past seasons: which systems '' @
          cp ''failed and when? Increase inspection frequency and spares holding for those items. '' @
          cp ''Before peak season, run a Red Team walk-through with engineer + chief stew + deck: ask '' @
          [8220] @
          cp ''What would ruin a guest day if it broke right now?'' @
          [8221] @
          cp '' and act on it. Track not just completed tasks, but unplanned downtime; aim to reduce '' @
          cp ''that season-on-season.''\<rparr>,
     \<lparr>question =
          cp ''I'' @
          [8217] @
          cp ''m choosing between several refit yards for a big paint and machinery job. Beyond the '' @
          cp ''quote, what should I really look at?'',
        answer =
          cp ''Check yard track record with your size and type of vessel'' @
          [8212] @
          cp ''ask for 2'' @
          [8211] @
          cp ''3 recent captains you can speak to directly. Evaluate project management structure: is '' @
          cp ''there a dedicated PM assigned, with clear communication routines and reporting formats? '' @
          cp ''Assess logistics & location (flights, crew housing, visa, weather windows) and include '' @
          cp ''those costs/risks in your comparison. Review quality control processes: acceptance '' @
          cp ''criteria, warranty terms, and how disputes are handled. Visit if possible: walk the '' @
          cp ''yard, look at housekeeping, safety culture and how work is organised; these soft '' @
          cp ''signals often matter more than the brochure.''\<rparr>,
     \<lparr>question =
          cp ''Owner wants a '' @
          [8220] @
          cp ''different'' @
          [8221] @
          cp '' Med season with fewer crowded ports and more unique anchorages, but we must stay safe '' @
          cp ''and practical. How do I approach this?'',
        answer =
          cp ''Start with constraints: yacht draft/LOA, helicopter ops, guest ages, mobility, and any '' @
          cp ''security concerns. Map secondary hubs within each region (e.g. alternatives to St '' @
          cp ''Tropez/Capri/Mykonos) that still have decent provisioning and medical access. Use past '' @
          cp ''AIS and port call data (yours and comparable yachts if available) to avoid patterns '' @
          cp ''everyone else follows. Plan '' @
          [8220] @
          cp ''hero moments'' @
          [8221] @
          cp '' (1'' @
          [8211] @
          cp ''2 special anchorages or off-grid stops) backed by solid weather and escape plans. '' @
          cp ''Present the owner with 2'' @
          [8211] @
          cp ''3 curated itineraries that balance uniqueness with realism'' @
          [8212] @
          cp ''highlighting exactly why each feels different from a classic milk run.''\<rparr>,
     \<lparr>question =
          cp ''We'' @
          [8217] @
          cp ''re under pressure to reduce fuel burn but still maintain ambitious itineraries. What '' @
          cp ''are some practical routing strategies I can use?'',
        answer =
          cp ''Optimise transit speeds: small reductions (e.g. from 14 to 11'' @
          [8211] @
          cp ''12 knots) often save disproportionate fuel over a season. Plan shorter legs with more '' @
          cp ''local clusters of experiences instead of long daily hops. Use weather and current '' @
          cp ''routing to minimise head seas and adverse conditions where possible. Coordinate with '' @
          cp ''the owner/charter broker early to align expectations: show a fuel-optimised itinerary '' @
          cp ''vs a '' @
          [8220] @
          cp ''max distance'' @
          [8221] @
          cp '' one. Log fuel burn vs itinerary in a simple dashboard and share trends with the '' @
          cp ''owner/management; this makes future compromises easier to negotiate.''\<rparr>,
     \<lparr>question =
          cp ''We get very little information about guest preferences before charters. How can I still '' @
          cp ''deliver a personalised experience without annoying the broker or PA?'',
        answer =
          cp ''Create a simple, visually appealing preference sheet that brokers actually want to '' @
          cp ''forward'' @
          [8212] @
          cp ''less text, more checkboxes and examples. Ask for categories rather than specifics: '' @
          cp ''dietary limits, general food styles, activity level, nightlife vs quiet, kids vs adults '' @
          cp ''focus. Prepare modular experiences: a few ready-to-go '' @
          [8220] @
          cp ''themes'' @
          [8221] @
          cp '' (wellness day, water sports day, local culture day, party night) you can adapt on the '' @
          cp ''fly. Use the first 12'' @
          [8211] @
          cp ''24 hours to quietly observe and adjust: meal portions, timing, music volume, favourite '' @
          cp ''spots onboard. Debrief with the broker post-charter, sharing what worked well; over '' @
          cp ''time, that builds a richer picture for repeat clients.''\<rparr>,
     \<lparr>question =
          cp ''The owner'' @
          [8217] @
          cp ''s friends often show up last-minute with no notice. How can I build flexibility into '' @
          cp ''the program without burning out the crew?'',
        answer =
          cp ''Define a '' @
          [8220] @
          cp ''surge plan'' @
          [8221] @
          cp '' with your HoDs: what changes when guest count spikes (service style, turndown, menu '' @
          cp ''complexity, tender schedule). Maintain a basic backup provisioning list with easy, '' @
          cp ''high-quality options that can scale guest numbers quickly. Protect crew core rest hours '' @
          cp ''by temporarily reducing non-critical tasks (deep detailing, non-urgent maintenance) '' @
          cp ''during these spikes. Communicate clearly with the owner/PA about what can and can'' @
          [8217] @
          cp ''t be done last-minute without compromising safety. After each event, review impact on '' @
          cp ''crew fatigue and adjust your surge plan for next time.''\<rparr>,
     \<lparr>question =
          cp ''Our operating budget is always blown by the end of the season, especially in '' @
          cp ''maintenance and provisions. How can I make the numbers more predictable?'',
        answer =
          cp ''Break the budget into 4'' @
          [8211] @
          cp ''6 clear buckets (fuel, port/marina, maintenance, provisions, crew, '' @
          [8220] @
          cp ''owner requests'' @
          [8221] @
          cp '') with monthly caps. Track '' @
          [8220] @
          cp ''unplanned'' @
          [8221] @
          cp '' vs '' @
          [8220] @
          cp ''planned'' @
          [8221] @
          cp '' spend separately; unplanned is where you'' @
          [8217] @
          cp ''ll find improvement opportunities. Use last 2'' @
          [8211] @
          cp ''3 seasons'' @
          [8217] @
          cp '' actuals to build a more realistic baseline, then add a defined contingency (e.g. 10'' @
          [8211] @
          cp ''15%) rather than pretending it won'' @
          [8217] @
          cp ''t be used. Share a simple monthly one-pager with the owner/management: big spends, '' @
          cp ''savings and reasons; that builds trust and makes future conversations easier. Make at '' @
          cp ''least one small visible saving initiative per season (e.g. shorepower vs generators '' @
          cp ''where feasible) and show the numbers.''\<rparr>,
     \<lparr>question =
          cp ''Management is cutting the maintenance budget, but I'' @
          [8217] @
          cp ''m worried we'' @
          [8217] @
          cp ''ll pay more later. How do I argue this without sounding difficult?'',
        answer =
          cp ''Translate technical risk into owner-language: tie maintenance cuts directly to '' @
          [8220] @
          cp ''chance of losing charter days'' @
          [8221] @
          cp '' or '' @
          [8220] @
          cp ''trip disruption risk.'' @
          [8221] @
          cp '' Present scenarios: '' @
          [8220] @
          cp ''If we defer X, probability of failure in season is roughly Y; cost of that failure '' @
          cp ''(lost days + emergency yard time) is Z.'' @
          [8221] @
          cp '' Identify low-impact cuts you can accept (cosmetics, non-critical upgrades) to show you'' @
          [8217] @
          cp ''re being cooperative. Propose a phased plan: what you must do this year, what can '' @
          cp ''safely be postponed, and what should be monitored closely. Keep the tone '' @
          cp ''solution-oriented: '' @
          [8220] @
          cp ''Here are 3 options; my professional recommendation is B.'' @
          [8221]\<rparr>,
     \<lparr>question =
          cp ''My owner changes his mind frequently about plans and priorities. How do I manage this '' @
          cp ''without constant chaos on board?'',
        answer =
          cp ''Introduce a simple planning rhythm: e.g. a weekly brief (written or call) where you '' @
          cp ''confirm itinerary, key priorities and any constraints. Summarise decisions back to the '' @
          cp ''owner/PA after each change: '' @
          [8220] @
          cp ''To confirm, we now do X instead of Y, which means Z impact.'' @
          [8221] @
          cp '' Internally, maintain a '' @
          [8220] @
          cp ''stable core'' @
          [8221] @
          cp '' (safety, maintenance, compliance) that doesn'' @
          [8217] @
          cp ''t move, and treat rest as flexible. Build a reputation for being both adaptable and '' @
          cp ''transparent: say '' @
          [8220] @
          cp ''yes'' @
          [8221] @
          cp '' when you can, and clearly explain trade-offs when you can'' @
          [8217] @
          cp ''t. Document major changes in a simple log; this helps avoid blame later and supports '' @
          cp ''your case in future discussions.''\<rparr>,
     \<lparr>question =
          cp ''Management company and I don'' @
          [8217] @
          cp ''t always see eye to eye. How do I keep the relationship constructive but protect the '' @
          cp ''vessel'' @
          [8217] @
          cp ''s interests?'',
        answer =
          cp ''Clarify roles and responsibilities in writing: who decides on what (crew, budget, '' @
          cp ''routing, major works, vendors). Use a regular standing call (e.g. bi-weekly) with a '' @
          cp ''fixed agenda: safety, operations, finance, owner feedback, upcoming decisions. When you '' @
          cp ''disagree, separate facts, risks and opinions; propose options with pros/cons rather '' @
          cp ''than '' @
          [8220] @
          cp ''yes/no.'' @
          [8221] @
          cp '' Copy in the right people (e.g. DPA, fleet manager) for issues that affect compliance '' @
          cp ''and safety '' @
          [8211] @
          cp '' that frames it as a professional concern. Keep your tone consistently calm and '' @
          cp ''professional; over time, being the person who brings structured information and '' @
          cp ''solutions increases your influence.''\<rparr>,
     \<lparr>question =
          cp ''We had a black water failure during charter'' @
          [8212] @
          cp ''nightmare. What can I implement so this never happens again during a guest trip?'',
        answer =
          cp ''Treat black water and grey water as '' @
          [8220] @
          cp ''mission critical'' @
          [8221] @
          cp '': review design limits, tank capacities, pump redundancy and venting. Implement '' @
          cp ''pre-charter stress tests: simulate full guest load, run all heads, showers and laundry '' @
          cp ''to confirm flows are stable. Create usage guidelines for guests (discreet, elegant '' @
          cp ''signage + crew script) to reduce abuse. Maintain a spares & tools kit specifically for '' @
          cp ''sewage systems and ensure crew are trained to use it. Review with an external '' @
          cp ''specialist after the season if failures persist; design fixes are often cheaper than '' @
          cp ''repeated emergencies.''\<rparr>,
     \<lparr>question =
          cp ''Our stabilisers have become the most unreliable part of the vessel. How do I decide '' @
          cp ''whether to keep repairing or plan for a bigger upgrade?'',
        answer =
          cp ''Log every incident with date, sea state, mode, and impact on guest comfort; patterns '' @
          cp ''matter. Discuss with OEM/service partner: ask for a clear view of expected life, known '' @
          cp ''failure modes and upgrade paths. Cost out the last 2'' @
          [8211] @
          cp ''3 seasons of call-outs, downtime and lost guest days versus an overhaul/upgrade. '' @
          cp ''Consider future itinerary (more crossings? rougher seas?) when evaluating risk. Present '' @
          cp ''management/owner with options (maintain vs major upgrade) including financial and '' @
          cp ''operational implications.''\<rparr>,
     \<lparr>question =
          cp ''I'' @
          [8217] @
          cp ''m a first-time captain on a 50'' @
          [8211] @
          cp ''60m. What are the first 3 systems or processes I should review in detail in my first 90 '' @
          cp ''days?'',
        answer =
          cp ''Safety & compliance: SMS, muster lists, drills records, equipment certificates, and how '' @
          cp ''crew actually behave in drills. Maintenance & critical systems: PMS setup, spares '' @
          cp ''strategy, and condition of generators, stabilisers, sewage, AC and tenders. Crew '' @
          cp ''structure & culture: rotations, handover quality, communication routines, and the '' @
          cp ''captain'' @
          [8211] @
          cp ''HoD leadership dynamic. Make a 90-day plan with 3'' @
          [8211] @
          cp ''5 concrete improvements and review it with management/owner'' @
          [8217] @
          cp ''s rep to align expectations.''\<rparr>,
     \<lparr>question =
          cp ''Owner wants '' @
          [8220] @
          cp ''more use'' @
          [8221] @
          cp '' of the yacht but crew are already stretched. How do I safely increase days in use '' @
          cp ''without losing people or breaking the boat?'',
        answer =
          cp ''Quantify current vs requested days in use and overlay maintenance windows; show where '' @
          cp ''pressure points occur. Propose a phased increase (e.g. +20% days this year) and define '' @
          cp ''what support changes are needed (extra crew, different rotations, bigger maintenance '' @
          cp ''yard period). Use data from past seasons (unplanned downtime, sick days, crew turnover) '' @
          cp ''as arguments, not feelings. Suggest '' @
          [8220] @
          cp ''smart'' @
          [8221] @
          cp '' extra use (shoulder seasons, off-peak charters) rather than stacking more into already '' @
          cp ''crowded months. Agree in writing on minimum maintenance and rest periods that must '' @
          cp ''remain untouched.''\<rparr>,
     \<lparr>question =
          cp ''How can I use data from our operations to have better conversations with the owner '' @
          cp ''about risk, cost and upgrades?'',
        answer =
          cp ''Start small: track 3'' @
          [8211] @
          cp ''5 metrics consistently (days in use, unplanned downtime incidents, fuel burn, major '' @
          cp ''unplanned costs, crew turnover). Present these visually in a simple quarterly '' @
          cp ''one-pager. Use that sheet to frame conversations: '' @
          [8220] @
          cp ''We did X days, had Y incidents, Z unplanned cost '' @
          [8211] @
          cp '' here'' @
          [8217] @
          cp ''s what I recommend for next season.'' @
          [8221] @
          cp '' Link upgrade requests directly to those metrics (e.g. '' @
          [8220] @
          cp ''If we upgrade X, we expect fewer incidents like Y, which cost us '' @
          [8364, 8230, 8221] @
          cp ''). Over time, this shifts conversation from opinions to trend-based decisions.''\<rparr>,
     \<lparr>question =
          cp ''We'' @
          [8217] @
          cp ''re constantly reactive. Is there a simple operational rhythm I can install so the boat '' @
          cp ''feels more in control and less firefighting?'',
        answer =
          cp ''Implement a weekly operations meeting with HoDs: last week'' @
          [8217] @
          cp ''s key issues, coming week'' @
          [8217] @
          cp ''s plan, risks and guest highlights. Add a monthly '' @
          [8220] @
          cp ''big picture'' @
          [8221] @
          cp '' review: budget, maintenance, crew wellbeing, upcoming refit or major changes. Use a '' @
          cp ''shared action list (even a simple spreadsheet) with owners, deadlines and status so '' @
          cp ''nothing is just '' @
          [8220] @
          cp ''in someone'' @
          [8217] @
          cp ''s head.'' @
          [8221] @
          cp '' Reserve protected time in the calendar for drills, training and preventative checks '' @
          [8211] @
          cp '' don'' @
          [8217] @
          cp ''t let them be the first thing cancelled. Stick to this rhythm even in quiet times; '' @
          cp ''consistency is what builds a less reactive culture.''\<rparr>
     ]"

text \<open>
  \<^verbatim>\<open>st.session_state.partner_cache\<close> after \<^verbatim>\<open>load_partner_cache()\<close>: the session starts
  with \<^verbatim>\<open>None\<close>, so the list is built by appending every pair in order.
\<close>

definition partner_cache :: "qa_pair list" where
  "partner_cache =
     foldl (\<lambda>cache pair. cache @ [\<lparr>question = question pair, answer = answer pair\<rparr>]) [] qa_pairs"

text \<open>
  The dict comprehension of line 562 over any list of entries: the entries are stored in
  order under the lowered question, so a later entry replaces an earlier one with the same
  key.
\<close>

definition static_qa_of :: "qa_pair list \<Rightarrow> (pystr \<rightharpoonup> pystr)" where
  "static_qa_of entries =
     foldl (\<lambda>d pair. d(lower (question pair) \<mapsto> answer pair)) Map.empty entries"

text \<open>
  Line 562 with the lowering of the question as a parameter: \<open>static_qa_with low\<close> is the
  comprehension for \<open>low\<close> in the place of \<^verbatim>\<open>str.lower\<close>, whatever that function does to
  cased letters outside ASCII, and \<open>static_qa_of\<close> is \<open>static_qa_with lower\<close>.
\<close>

definition static_qa_with :: "(pystr \<Rightarrow> pystr) \<Rightarrow> qa_pair list \<Rightarrow> (pystr \<rightharpoonup> pystr)" where
  "static_qa_with low entries =
     foldl (\<lambda>d pair. d(low (question pair) \<mapsto> answer pair)) Map.empty entries"

definition STATIC_QA :: "pystr \<rightharpoonup> pystr" where
  "STATIC_QA = static_qa_of partner_cache"

definition get_answer :: "env \<Rightarrow> pystr \<Rightarrow> world \<Rightarrow> pystr \<times> world" where
  "get_answer e user_input w =
     (let key = lower (strip user_input) in
      case STATIC_QA key of
        Some a \<Rightarrow> (a, w)
      | None \<Rightarrow> ask_openai_cached e user_input w)"

section \<open>Persistence: save\_chat\_to\_db\<close>

text \<open>
  The upsert is attempted with the whole chat as its document. When it raises, the
  exception is caught and its text is shown by \<^verbatim>\<open>st.error\<close>; the table is taken to be
  unchanged by a failed upsert.
\<close>

definition save_chat_to_db :: "env \<Rightarrow> pystr \<Rightarrow> chat \<Rightarrow> world \<Rightarrow> world" where
  "save_chat_to_db e user_email c w =
     (let w1 = w\<lparr>upserts := upserts w @ [((user_email, title c), messages c)]\<rparr> in
      case upsert_outcome e (length (upserts w)) of
        None \<Rightarrow> w1\<lparr>table_rows := (table_rows w1)((user_email, title c) \<mapsto> messages c)\<rparr>
      | Some err \<Rightarrow> w1\<lparr>errors := errors w1 @ [cp ''Failed to save chat: '' @ err]\<rparr>)"

section \<open>The chat form of show\_chat\_page\<close>

text \<open>
  Lines 782 to 791: \<open>submitted\<close> and \<open>user_input\<close> are what the form returns in this run
  of the script, \<open>current_chat\<close> is the chat of the session state that the page shows. The
  source appends to \<^verbatim>\<open>current_chat["messages"]\<close> in place; the chat returned is that
  object after the run.
\<close>

definition submit_chat_form ::
  "env \<Rightarrow> pystr \<Rightarrow> chat \<Rightarrow> bool \<Rightarrow> pystr \<Rightarrow> world \<Rightarrow> chat \<times> world" where
  "submit_chat_form e user_email current_chat submitted user_input w =
     (if submitted \<and> strip user_input \<noteq> [] then
        let c1 = current_chat\<lparr>messages := messages current_chat @
                   [\<lparr>role = cp ''user'', content = strip user_input, is_static_answer = False\<rparr>]\<rparr>;
            key = lower (strip user_input)
        in (case STATIC_QA key of
              Some a \<Rightarrow>
                let c2 = c1\<lparr>messages := messages c1 @
                           [\<lparr>role = cp ''bot'', content = a, is_static_answer = True\<rparr>]\<rparr>
                in (c2, save_chat_to_db e user_email \<lparr>title = title c2, messages = messages c2\<rparr> w)
            | None \<Rightarrow>
                (case ask_openai_cached e (strip user_input) w of
                   (ai_response, w1) \<Rightarrow>
                     let c2 = c1\<lparr>messages := messages c1 @
                                [\<lparr>role = cp ''bot'', content = ai_response, is_static_answer = False\<rparr>]\<rparr>
                     in (c2, save_chat_to_db e user_email \<lparr>title = title c2, messages = messages c2\<rparr> w1)))
      else (current_chat, w))"

section \<open>The transcript: render\_chat\<close>

text \<open>\<^verbatim>\<open>list.insert(i, x)\<close> for an index that is not negative.\<close>

definition insert_at :: "nat \<Rightarrow> 'a \<Rightarrow> 'a list \<Rightarrow> 'a list" where
  "insert_at i x xs = take i xs @ [x] @ drop i xs"

definition buttons :: "pystr list" where
  "buttons = [cp ''Ask a Specialist'', cp ''Ask Your Peers'', cp ''Ask on Instagram'', cp ''Ask OpenAI'']"

text \<open>
  One pass of the inner loop over the buttons of the static answer \<open>msg\<close> at index \<open>idx\<close>.
  \<open>click\<close> is the button pressed in the interaction that started this run of the script,
  as the text and the index its key \<^verbatim>\<open>f"{button_text}_{idx}"\<close> is made of;
  \<^verbatim>\<open>st.button\<close> returns \<^verbatim>\<open>True\<close> for that button only. \<open>username\<close> is
  \<^verbatim>\<open>st.session_state.username\<close> and \<open>chat_title\<close> is the title the source reads from
  \<^verbatim>\<open>st.session_state.users[username][current_chat_index]\<close>. What is drawn on the page
  (\<^verbatim>\<open>st.markdown\<close>) is not modelled.
\<close>

definition press_button ::
  "env \<Rightarrow> pystr \<Rightarrow> pystr \<Rightarrow> (pystr \<times> nat) option \<Rightarrow> nat \<Rightarrow> message \<Rightarrow>
   message list \<times> world \<Rightarrow> pystr \<Rightarrow> message list \<times> world" where
  "press_button e username chat_title click idx msg st button_text =
     (case st of (msgs, w) \<Rightarrow>
        if click = Some (button_text, idx) then
          if button_text = cp ''Ask OpenAI'' then
            (case ask_openai_cached e (content msg) w of
               (ai_response, w1) \<Rightarrow>
                 let msgs1 = insert_at (idx + 1)
                       \<lparr>role = cp ''bot'', content = ai_response, is_static_answer = False\<rparr> msgs
                 in (msgs1, save_chat_to_db e username \<lparr>title = chat_title, messages = msgs1\<rparr> w1))
          else (msgs, w\<lparr>infos := infos w @ [cp ''You clicked '' @ [39] @ button_text @ [39]]\<rparr>)
        else (msgs, w))"

text \<open>The body of the loop over the messages, for the message at \<open>idx\<close>.\<close>

definition render_message ::
  "env \<Rightarrow> pystr \<Rightarrow> pystr \<Rightarrow> (pystr \<times> nat) option \<Rightarrow> nat \<Rightarrow>
   message list \<times> world \<Rightarrow> message list \<times> world" where
  "render_message e username chat_title click idx st =
     (let msg = fst st ! idx in
      if role msg = cp ''user'' then st
      else if is_static_answer msg
        then foldl (press_button e username chat_title click idx msg) st buttons
        else st)"

text \<open>
  \<^verbatim>\<open>for idx, msg in enumerate(messages)\<close>: the list iterator reads the list at each step,
  so a message inserted during the loop is visited like any other.
\<close>

function render_chat_loop ::
  "env \<Rightarrow> pystr \<Rightarrow> pystr \<Rightarrow> (pystr \<times> nat) option \<Rightarrow> nat \<Rightarrow>
   message list \<times> world \<Rightarrow> message list \<times> world" where
  "render_chat_loop e username chat_title click idx st =
     (if idx < length (fst st)
      then render_chat_loop e username chat_title click (idx + 1)
             (render_message e username chat_title click idx st)
      else st)"
  by pat_completeness auto
termination
proof (relation "measure (\<lambda>(e, username, chat_title, click, idx, st).
         length (fst st) - idx + (case click of None \<Rightarrow> 0 | Some (b, k) \<Rightarrow> if idx \<le> k then 1 else 0))")
  show "wf (measure (\<lambda>(e, username, chat_title, click, idx, st).
         length (fst st) - idx +
         (case click of None \<Rightarrow> 0 | Some (b, k) \<Rightarrow> if idx \<le> k then 1 else (0::nat))))"
    by simp
next
  fix e :: env and username chat_title :: pystr and click :: "(pystr \<times> nat) option"
    and idx :: nat and st :: "message list \<times> world"
  assume less: "idx < length (fst st)"
  have press: "length (fst (press_button e username chat_title c idx msg s b)) =
      length (fst s) + (if c = Some (b, idx) \<and> b = cp ''Ask OpenAI'' then 1 else 0)"
    for msg s b c
    by (cases s) (auto simp add: press_button_def insert_at_def Let_def split: prod.splits)
  have others: "cp ''Ask a Specialist'' \<noteq> cp ''Ask OpenAI''" "cp ''Ask Your Peers'' \<noteq> cp ''Ask OpenAI''"
    "cp ''Ask on Instagram'' \<noteq> cp ''Ask OpenAI''"
    by (simp_all add: cp_def)
  have all: "length (fst (foldl (press_button e username chat_title c idx msg) s buttons)) =
      length (fst s) + (if c = Some (cp ''Ask OpenAI'', idx) then 1 else 0)"
    for msg s c
    by (simp add: buttons_def press others)
  have grow: "length (fst (render_message e username chat_title click idx st)) \<le>
      length (fst st) + (if click = Some (cp ''Ask OpenAI'', idx) then 1 else 0)"
    by (simp add: render_message_def Let_def all)
  show "((e, username, chat_title, click, idx + 1, render_message e username chat_title click idx st),
         (e, username, chat_title, click, idx, st))
        \<in> measure (\<lambda>(e, username, chat_title, click, idx, st).
             length (fst st) - idx +
             (case click of None \<Rightarrow> 0 | Some (b, k) \<Rightarrow> if idx \<le> k then 1 else 0))"
  proof (cases "click = Some (cp ''Ask OpenAI'', idx)")
    case True
    with grow less show ?thesis by simp
  next
    case False
    with grow have "length (fst (render_message e username chat_title click idx st)) \<le> length (fst st)"
      by simp
    with less show ?thesis by (auto split: option.splits)
  qed
qed

definition render_chat ::
  "env \<Rightarrow> pystr \<Rightarrow> pystr \<Rightarrow> (pystr \<times> nat) option \<Rightarrow> message list \<Rightarrow> world \<Rightarrow>
   message list \<times> world" where
  "render_chat e username chat_title click msgs w =
     render_chat_loop e username chat_title click 0 (msgs, w)"

section \<open>A fresh process and scripted collaborators\<close>

text \<open>The state of a process that has answered nothing yet.\<close>

definition fresh_world :: world where
  "fresh_world = \<lparr>cache = Map.empty, bodies = [], requests = [], sleeps = [],
     table_rows = Map.empty, upserts = [], errors = [], infos = []\<rparr>"

text \<open>
  Collaborators that follow a script: the \<open>n\<close>-th call of the provider does what the
  \<open>n\<close>-th entry of \<open>rs\<close> says and echoes the question once the script is over; the \<open>n\<close>-th
  upsert does what the \<open>n\<close>-th entry of \<open>us\<close> says and succeeds afterwards.
\<close>

definition scripted :: "provider_result list \<Rightarrow> pystr option list \<Rightarrow> env" where
  "scripted rs us =
     \<lparr>provider = (\<lambda>n question. if n < length rs then rs ! n else Completion question),
      upsert_outcome = (\<lambda>n. if n < length us then us ! n else None)\<rparr>"

section \<open>Facts about the completion client\<close>

lemma range3: "[0..<3] = [0, 1, 2]"
  by (simp add: upt_rec)

lemma contains_own_suffix: "contains sub (pre @ sub)"
proof (induction pre)
  case Nil
  show ?case by (cases sub) simp_all
next
  case (Cons c pre)
  then show ?case by simp
qed

lemma error_prefix_marker: "take (length warning_marker) (error_prefix @ err) = warning_marker"
  by (simp add: error_prefix_def)

lemma attempts_cache: "cache (snd (ask_openai_attempts e q as w)) = cache w"
  by (induction as arbitrary: w) (simp_all add: Let_def split: provider_result.split)

lemma attempts_bodies: "bodies (snd (ask_openai_attempts e q as w)) = bodies w"
  by (induction as arbitrary: w) (simp_all add: Let_def split: provider_result.split)

lemma rate_limit_text: "is_rate_limit (cp ''Rate limit reached for gpt-4o-mini'')"
  by (simp add: is_rate_limit_def cp_def lower_def lower_cp_def)

lemma rate_limit_429: "is_rate_limit (cp ''Error code: 429'')"
  by (simp add: is_rate_limit_def cp_def lower_def lower_cp_def)

lemma connection_error_other: "\<not> is_rate_limit (cp ''Connection error.'')"
  by (simp add: is_rate_limit_def cp_def lower_def lower_cp_def)

lemma fresh_world_fields:
  "cache fresh_world = Map.empty" "bodies fresh_world = []" "requests fresh_world = []"
  "sleeps fresh_world = []" "upserts fresh_world = []" "errors fresh_world = []"
  "infos fresh_world = []" "table_rows fresh_world = Map.empty"
  by (simp_all add: fresh_world_def)

lemma scripted_provider:
  "provider (scripted rs us) n q = (if n < length rs then rs ! n else Completion q)"
  by (simp add: scripted_def)


text \<open>
  Claim C3. On a cache miss, when the first two calls of the provider raise rate-limit
  errors and the third returns the content \<open>text\<close>, \<open>ask_openai_cached\<close> returns that
  content (stripped, as line 363 does), after exactly three calls of the provider and
  exactly two sleeps, of \<open>5 * 1\<close> and \<open>5 * 2\<close> time units: 15 in all.
\<close>

theorem ask_openai_cached_retry_success:
  assumes miss: "cache w q = None"
    and first: "provider e (length (requests w)) q = Raises err1" "is_rate_limit err1"
    and second: "provider e (length (requests w) + 1) q = Raises err2" "is_rate_limit err2"
    and third: "provider e (length (requests w) + 2) q = Completion text"
  shows "fst (ask_openai_cached e q w) = strip text \<and>
         sleeps (snd (ask_openai_cached e q w)) = sleeps w @ [5 * 1, 5 * 2] \<and>
         waited (snd (ask_openai_cached e q w)) = waited w + (5 + 10) \<and>
         requests (snd (ask_openai_cached e q w)) = requests w @ [q, q, q]"
  using assms
  by (simp add: ask_openai_cached_def ask_openai_body_def range3 waited_def)

theorem ask_openai_cached_retry_success_witness:
  "cache fresh_world (cp ''Best anchorage?'') = None \<and>
   is_rate_limit (cp ''Rate limit reached for gpt-4o-mini'') \<and>
   is_rate_limit (cp ''Error code: 429'') \<and>
   fst (ask_openai_cached
         (scripted [Raises (cp ''Rate limit reached for gpt-4o-mini''), Raises (cp ''Error code: 429''),
                    Completion (cp '' Try Cala di Volpe. '')] [])
         (cp ''Best anchorage?'') fresh_world) = cp ''Try Cala di Volpe.'' \<and>
   sleeps (snd (ask_openai_cached
         (scripted [Raises (cp ''Rate limit reached for gpt-4o-mini''), Raises (cp ''Error code: 429''),
                    Completion (cp '' Try Cala di Volpe. '')] [])
         (cp ''Best anchorage?'') fresh_world)) = [5, 10] \<and>
   waited (snd (ask_openai_cached
         (scripted [Raises (cp ''Rate limit reached for gpt-4o-mini''), Raises (cp ''Error code: 429''),
                    Completion (cp '' Try Cala di Volpe. '')] [])
         (cp ''Best anchorage?'') fresh_world)) = 15"
proof -
  let ?e = "scripted [Raises (cp ''Rate limit reached for gpt-4o-mini''), Raises (cp ''Error code: 429''),
                      Completion (cp '' Try Cala di Volpe. '')] []"
  let ?q = "cp ''Best anchorage?''"
  have miss: "cache fresh_world ?q = None" by (simp add: fresh_world_fields)
  have p1: "provider ?e (length (requests fresh_world)) ?q = Raises (cp ''Rate limit reached for gpt-4o-mini'')"
    by (simp add: scripted_provider fresh_world_fields)
  have p2: "provider ?e (length (requests fresh_world) + 1) ?q = Raises (cp ''Error code: 429'')"
    by (simp add: scripted_provider fresh_world_fields)
  have p3: "provider ?e (length (requests fresh_world) + 2) ?q = Completion (cp '' Try Cala di Volpe. '')"
    by (simp add: scripted_provider fresh_world_fields)
  have s: "strip (cp '' Try Cala di Volpe. '') = cp ''Try Cala di Volpe.''"
    by (simp add: strip_def cp_def is_space_def)
  have w: "waited fresh_world = 0" by (simp add: waited_def fresh_world_fields)
  from ask_openai_cached_retry_success [OF miss p1 rate_limit_text p2 rate_limit_429 p3]
    miss rate_limit_text rate_limit_429 s w
  show ?thesis by (simp add: fresh_world_fields)
qed

text \<open>
  Claim C4. On a cache miss, when all three calls of the provider raise rate-limit
  errors, \<open>ask_openai_cached\<close> returns the fixed overload message. The result is a string
  in every case: the model has no exception to return, since every exception of the
  \<^verbatim>\<open>try\<close> block is caught by \<^verbatim>\<open>except Exception\<close>.
\<close>

theorem ask_openai_cached_exhausted_message:
  assumes miss: "cache w q = None"
    and first: "provider e (length (requests w)) q = Raises err1" "is_rate_limit err1"
    and second: "provider e (length (requests w) + 1) q = Raises err2" "is_rate_limit err2"
    and third: "provider e (length (requests w) + 2) q = Raises err3" "is_rate_limit err3"
  shows "fst (ask_openai_cached e q w) = overload_message"
  using assms
  by (simp add: ask_openai_cached_def ask_openai_body_def range3)

theorem ask_openai_cached_exhausted_message_witness:
  "cache fresh_world (cp ''Best anchorage?'') = None \<and>
   is_rate_limit (cp ''Rate limit reached for gpt-4o-mini'') \<and>
   is_rate_limit (cp ''Error code: 429'') \<and>
   fst (ask_openai_cached
         (scripted [Raises (cp ''Rate limit reached for gpt-4o-mini''), Raises (cp ''Error code: 429''),
                    Raises (cp ''Error code: 429'')] [])
         (cp ''Best anchorage?'') fresh_world) =
     [9888, 65039] @
     cp '' The system is receiving too many requests right now. Please try again in a few seconds.''"
proof -
  let ?e = "scripted [Raises (cp ''Rate limit reached for gpt-4o-mini''), Raises (cp ''Error code: 429''),
                      Raises (cp ''Error code: 429'')] []"
  let ?q = "cp ''Best anchorage?''"
  have miss: "cache fresh_world ?q = None" by (simp add: fresh_world_fields)
  have p1: "provider ?e (length (requests fresh_world)) ?q = Raises (cp ''Rate limit reached for gpt-4o-mini'')"
    by (simp add: scripted_provider fresh_world_fields)
  have p2: "provider ?e (length (requests fresh_world) + 1) ?q = Raises (cp ''Error code: 429'')"
    by (simp add: scripted_provider fresh_world_fields)
  have p3: "provider ?e (length (requests fresh_world) + 2) ?q = Raises (cp ''Error code: 429'')"
    by (simp add: scripted_provider fresh_world_fields)
  from ask_openai_cached_exhausted_message
    [OF miss p1 rate_limit_text p2 rate_limit_429 p3 rate_limit_429]
    miss rate_limit_text rate_limit_429
  show ?thesis by (simp add: overload_message_def warning_marker_def)
qed

text \<open>
  Claim C5. On a cache miss, when attempt \<open>k + 1\<close> (of the three) is the first whose
  error is not a rate-limit error, \<open>ask_openai_cached\<close> returns at once: the provider has
  been called \<open>k + 1\<close> times and is not called again, the only sleeps are those after the
  \<open>k\<close> rate-limited attempts before it (none when the first attempt fails so), and the
  result is the warning marker, \<^verbatim>\<open>" Error: "\<close> and the text of the error.
\<close>

theorem ask_openai_cached_other_error:
  assumes miss: "cache w q = None"
    and k: "k < 3"
    and before: "\<forall>i<k. \<exists>err'. provider e (length (requests w) + i) q = Raises err' \<and>
                   is_rate_limit err'"
    and at: "provider e (length (requests w) + k) q = Raises err" "\<not> is_rate_limit err"
  shows "fst (ask_openai_cached e q w) = error_prefix @ err \<and>
         take (length warning_marker) (fst (ask_openai_cached e q w)) = warning_marker \<and>
         contains err (fst (ask_openai_cached e q w)) \<and>
         requests (snd (ask_openai_cached e q w)) = requests w @ replicate (Suc k) q \<and>
         sleeps (snd (ask_openai_cached e q w)) = sleeps w @ map (\<lambda>i. 5 * (i + 1)) [0..<k]"
proof -
  from k consider "k = 0" | "k = 1" | "k = 2" by linarith
  then have core: "fst (ask_openai_cached e q w) = error_prefix @ err \<and>
         requests (snd (ask_openai_cached e q w)) = requests w @ replicate (Suc k) q \<and>
         sleeps (snd (ask_openai_cached e q w)) = sleeps w @ map (\<lambda>i. 5 * (i + 1)) [0..<k]"
  proof cases
    case 1
    with miss at show ?thesis
      by (simp add: ask_openai_cached_def ask_openai_body_def range3)
  next
    case 2
    then have "0 < k" by simp
    from before [rule_format, OF this]
    obtain e0 where "provider e (length (requests w)) q = Raises e0" "is_rate_limit e0"
      by auto
    with 2 miss at show ?thesis
      by (simp add: ask_openai_cached_def ask_openai_body_def range3)
  next
    case 3
    then have "0 < k" and "1 < k" by simp_all
    from before [rule_format, OF \<open>0 < k\<close>]
    obtain e0 where e0: "provider e (length (requests w)) q = Raises e0" "is_rate_limit e0"
      by auto
    from before [rule_format, OF \<open>1 < k\<close>]
    obtain e1 where e1: "provider e (length (requests w) + 1) q = Raises e1" "is_rate_limit e1"
      by auto
    have r: "[0..<2] = [0, 1]" by (simp add: upt_rec)
    from 3 miss at e0 e1 show ?thesis
      by (simp add: ask_openai_cached_def ask_openai_body_def range3 r numeral_3_eq_3)
  qed
  then have res: "fst (ask_openai_cached e q w) = error_prefix @ err" by blast
  have "take (length warning_marker) (fst (ask_openai_cached e q w)) = warning_marker"
    unfolding res by (rule error_prefix_marker)
  moreover have "contains err (fst (ask_openai_cached e q w))"
    unfolding res by (rule contains_own_suffix)
  ultimately show ?thesis using core by blast
qed

theorem ask_openai_cached_other_error_witness:
  "cache fresh_world (cp ''Best anchorage?'') = None \<and>
   \<not> is_rate_limit (cp ''Connection error.'') \<and>
   fst (ask_openai_cached (scripted [Raises (cp ''Connection error.'')] [])
         (cp ''Best anchorage?'') fresh_world) =
     [9888, 65039] @ cp '' Error: Connection error.'' \<and>
   requests (snd (ask_openai_cached (scripted [Raises (cp ''Connection error.'')] [])
         (cp ''Best anchorage?'') fresh_world)) = [cp ''Best anchorage?''] \<and>
   sleeps (snd (ask_openai_cached (scripted [Raises (cp ''Connection error.'')] [])
         (cp ''Best anchorage?'') fresh_world)) = [] \<and>
   is_rate_limit (cp ''Error code: 429'') \<and>
   fst (ask_openai_cached
         (scripted [Raises (cp ''Error code: 429''), Raises (cp ''Connection error.'')] [])
         (cp ''Best anchorage?'') fresh_world) =
     [9888, 65039] @ cp '' Error: Connection error.'' \<and>
   requests (snd (ask_openai_cached
         (scripted [Raises (cp ''Error code: 429''), Raises (cp ''Connection error.'')] [])
         (cp ''Best anchorage?'') fresh_world)) = [cp ''Best anchorage?'', cp ''Best anchorage?''] \<and>
   sleeps (snd (ask_openai_cached
         (scripted [Raises (cp ''Error code: 429''), Raises (cp ''Connection error.'')] [])
         (cp ''Best anchorage?'') fresh_world)) = [5]"
proof -
  let ?e0 = "scripted [Raises (cp ''Connection error.'')] []"
  let ?e1 = "scripted [Raises (cp ''Error code: 429''), Raises (cp ''Connection error.'')] []"
  let ?q = "cp ''Best anchorage?''"
  have miss: "cache fresh_world ?q = None" by (simp add: fresh_world_fields)
  have b0: "\<forall>i<0. \<exists>err'. provider ?e0 (length (requests fresh_world) + i) ?q = Raises err' \<and>
              is_rate_limit err'"
    by simp
  have a0: "provider ?e0 (length (requests fresh_world) + 0) ?q = Raises (cp ''Connection error.'')"
    by (simp add: scripted_provider fresh_world_fields)
  have b1: "\<forall>i<1. \<exists>err'. provider ?e1 (length (requests fresh_world) + i) ?q = Raises err' \<and>
              is_rate_limit err'"
    using rate_limit_429 by (simp add: scripted_provider fresh_world_fields)
  have a1: "provider ?e1 (length (requests fresh_world) + 1) ?q = Raises (cp ''Connection error.'')"
    by (simp add: scripted_provider fresh_world_fields)
  have pre: "error_prefix @ cp ''Connection error.'' = [9888, 65039] @ cp '' Error: Connection error.''"
    by (simp add: error_prefix_def warning_marker_def cp_def)
  have r1: "[0..<1] = [0]" by (simp add: upt_rec)
  from ask_openai_cached_other_error [OF miss _ b0 a0 connection_error_other]
    ask_openai_cached_other_error [OF miss _ b1 a1 connection_error_other]
    miss connection_error_other rate_limit_429 pre
  show ?thesis by (simp add: fresh_world_fields r1)
qed



section \<open>Facts about the static index\<close>

lemma partner_cache_eq: "partner_cache = qa_pairs"
proof -
  have "foldl (\<lambda>cache pair. cache @ [\<lparr>question = question pair, answer = answer pair\<rparr>]) acc ps = acc @ ps"
    for acc ps :: "qa_pair list"
    by (induction ps arbitrary: acc) simp_all
  then show ?thesis by (simp add: partner_cache_def)
qed

lemma static_qa_of_snoc:
  "static_qa_of (es @ [p]) = (static_qa_of es)(lower (question p) \<mapsto> answer p)"
  by (simp add: static_qa_of_def)

lemma static_qa_of_miss:
  "k \<notin> set (map (\<lambda>r. lower (question r)) es) \<Longrightarrow> static_qa_of es k = None"
proof (induction es rule: rev_induct)
  case Nil
  show ?case by (simp add: static_qa_of_def)
next
  case (snoc p es)
  then show ?case by (simp add: static_qa_of_snoc)
qed

lemma static_qa_of_last:
  "lower (question p) \<notin> set (map (\<lambda>r. lower (question r)) ys) \<Longrightarrow>
   static_qa_of (xs @ p # ys) (lower (question p)) = Some (answer p)"
proof (induction ys rule: rev_induct)
  case Nil
  show ?case by (simp add: static_qa_of_snoc)
next
  case (snoc y ys)
  have "static_qa_of (xs @ p # ys @ [y]) = static_qa_of ((xs @ p # ys) @ [y])" by simp
  with snoc show ?case by (simp add: static_qa_of_snoc del: append_assoc)
qed

lemma static_qa_of_distinct:
  assumes "distinct (map (\<lambda>r. lower (question r)) es)" and "p \<in> set es"
  shows "static_qa_of es (lower (question p)) = Some (answer p)"
proof -
  from \<open>p \<in> set es\<close> obtain xs ys where es: "es = xs @ p # ys" by (auto dest: split_list)
  with assms(1) have "lower (question p) \<notin> set (map (\<lambda>r. lower (question r)) ys)" by auto
  then show ?thesis unfolding es by (rule static_qa_of_last)
qed

text \<open>The keys of the curated index, in the order of the list.\<close>

lemma static_keys:
  "map (\<lambda>r. lower (question r)) qa_pairs =
    [cp ''my chief stew and chef are in conflict two days before a busy charter. how do i '' @
     cp ''de-escalate this without taking sides or compromising service?'',
     cp ''my rotation and leave plan looked fine on paper, but every season i end up with '' @
     cp ''either short-staffing or burnout. what'' @
     [8217] @
     cp ''s a better way to plan rotations?'',
     cp ''we'' @
     [8217] @
     cp ''re about to switch from private to charter under a different flag. what are the '' @
     cp ''most common compliance pitfalls captains miss in that transition?'',
     cp ''port state control and flag inspectors always seem to find something different. how '' @
     cp ''can i prepare for inspections in a way that'' @
     [8217] @
     cp ''s consistent and less stressful for the crew?'',
     cp ''our planned maintenance system is up to date on paper, but we still get nasty '' @
     cp ''surprises in-season (ac failures, sewage issues, stabilisers). what can we change?'',
     cp ''i'' @
     [8217] @
     cp ''m choosing between several refit yards for a big paint and machinery job. beyond '' @
     cp ''the quote, what should i really look at?'',
     cp ''owner wants a '' @
     [8220] @
     cp ''different'' @
     [8221] @
     cp '' med season with fewer crowded ports and more unique anchorages, but we must stay '' @
     cp ''safe and practical. how do i approach this?'',
     cp ''we'' @
     [8217] @
     cp ''re under pressure to reduce fuel burn but still maintain ambitious itineraries. '' @
     cp ''what are some practical routing strategies i can use?'',
     cp ''we get very little information about guest preferences before charters. how can i '' @
     cp ''still deliver a personalised experience without annoying the broker or pa?'',
     cp ''the owner'' @
     [8217] @
     cp ''s friends often show up last-minute with no notice. how can i build flexibility '' @
     cp ''into the program without burning out the crew?'',
     cp ''our operating budget is always blown by the end of the season, especially in '' @
     cp ''maintenance and provisions. how can i make the numbers more predictable?'',
     cp ''management is cutting the maintenance budget, but i'' @
     [8217] @
     cp ''m worried we'' @
     [8217] @
     cp ''ll pay more later. how do i argue this without sounding difficult?'',
     cp ''my owner changes his mind frequently about plans and priorities. how do i manage '' @
     cp ''this without constant chaos on board?'',
     cp ''management company and i don'' @
     [8217] @
     cp ''t always see eye to eye. how do i keep the relationship constructive but protect '' @
     cp ''the vessel'' @
     [8217] @
     cp ''s interests?'',
     cp ''we had a black water failure during charter'' @
     [8212] @
     cp ''nightmare. what can i implement so this never happens again during a guest trip?'',
     cp ''our stabilisers have become the most unreliable part of the vessel. how do i decide '' @
     cp ''whether to keep repairing or plan for a bigger upgrade?'',
     cp ''i'' @
     [8217] @
     cp ''m a first-time captain on a 50'' @
     [8211] @
     cp ''60m. what are the first 3 systems or processes i should review in detail in my '' @
     cp ''first 90 days?'',
     cp ''owner wants '' @
     [8220] @
     cp ''more use'' @
     [8221] @
     cp '' of the yacht but crew are already stretched. how do i safely increase days in use '' @
     cp ''without losing people or breaking the boat?'',
     cp ''how can i use data from our operations to have better conversations with the owner '' @
     cp ''about risk, cost and upgrades?'',
     cp ''we'' @
     [8217] @
     cp ''re constantly reactive. is there a simple operational rhythm i can install so the '' @
     cp ''boat feels more in control and less firefighting?'']"
  apply (simp add: qa_pairs_def)
  apply (simp add: lower_def lower_cp_def cp_def)
  done

lemma static_keys_distinct: "distinct (map (\<lambda>r. lower (question r)) qa_pairs)"
  unfolding static_keys by (simp add: cp_def)

lemma cp_Nil: "cp s = [] \<longleftrightarrow> s = []"
  by (simp add: cp_def)

lemma lower_Nil: "lower s = [] \<longleftrightarrow> s = []"
  by (simp add: lower_def)

lemma curated_key_nonempty:
  assumes "p \<in> set qa_pairs"
  shows "lower (question p) \<noteq> []"
proof -
  from assms have "lower (question p) \<in> set (map (\<lambda>r. lower (question r)) qa_pairs)" by simp
  then show ?thesis unfolding static_keys by (auto simp: cp_Nil)
qed

lemma static_qa_curated:
  "p \<in> set qa_pairs \<Longrightarrow> STATIC_QA (lower (question p)) = Some (answer p)"
  unfolding STATIC_QA_def partner_cache_eq
  by (rule static_qa_of_distinct [OF static_keys_distinct])

lemma static_qa_miss:
  "k \<notin> set (map (\<lambda>r. lower (question r)) qa_pairs) \<Longrightarrow> STATIC_QA k = None"
  unfolding STATIC_QA_def partner_cache_eq by (rule static_qa_of_miss)

lemma save_chat_to_db_frame:
  "cache (save_chat_to_db e user_email c w) = cache w"
  "bodies (save_chat_to_db e user_email c w) = bodies w"
  "requests (save_chat_to_db e user_email c w) = requests w"
  "sleeps (save_chat_to_db e user_email c w) = sleeps w"
  "infos (save_chat_to_db e user_email c w) = infos w"
  by (simp_all add: save_chat_to_db_def Let_def split: option.split)

lemma submit_chat_form_static:
  assumes "strip u \<noteq> []" and "STATIC_QA (lower (strip u)) = Some a"
  shows "submit_chat_form e user_email c True u w =
    (c\<lparr>messages := messages c @
        [\<lparr>role = cp ''user'', content = strip u, is_static_answer = False\<rparr>,
         \<lparr>role = cp ''bot'', content = a, is_static_answer = True\<rparr>]\<rparr>,
     save_chat_to_db e user_email
       \<lparr>title = title c, messages = messages c @
          [\<lparr>role = cp ''user'', content = strip u, is_static_answer = False\<rparr>,
           \<lparr>role = cp ''bot'', content = a, is_static_answer = True\<rparr>]\<rparr> w)"
  using assms by (simp add: submit_chat_form_def Let_def)

lemma submit_chat_form_ai:
  assumes "strip u \<noteq> []" and "STATIC_QA (lower (strip u)) = None"
  shows "submit_chat_form e user_email c True u w =
    (c\<lparr>messages := messages c @
        [\<lparr>role = cp ''user'', content = strip u, is_static_answer = False\<rparr>,
         \<lparr>role = cp ''bot'', content = fst (ask_openai_cached e (strip u) w),
          is_static_answer = False\<rparr>]\<rparr>,
     save_chat_to_db e user_email
       \<lparr>title = title c, messages = messages c @
          [\<lparr>role = cp ''user'', content = strip u, is_static_answer = False\<rparr>,
           \<lparr>role = cp ''bot'', content = fst (ask_openai_cached e (strip u) w),
            is_static_answer = False\<rparr>]\<rparr>
       (snd (ask_openai_cached e (strip u) w)))"
  using assms by (simp add: submit_chat_form_def Let_def split_def)

lemma submit_chat_form_blank:
  "strip u = [] \<Longrightarrow> submit_chat_form e user_email c submitted u w = (c, w)"
  by (simp add: submit_chat_form_def)

lemma ask_openai_cached_hit:
  "cache w q = Some v \<Longrightarrow> ask_openai_cached e q w = (v, w)"
  by (simp add: ask_openai_cached_def)

lemma ask_openai_cached_miss:
  assumes "cache w q = None"
  shows "bodies (snd (ask_openai_cached e q w)) = bodies w @ [q]"
    and "cache (snd (ask_openai_cached e q w)) = (cache w)(q \<mapsto> fst (ask_openai_cached e q w))"
  using assms
  by (simp_all add: ask_openai_cached_def ask_openai_body_def split_def attempts_bodies attempts_cache)

lemma ask_openai_cached_stores:
  "cache (snd (ask_openai_cached e q w)) q = Some (fst (ask_openai_cached e q w))"
proof (cases "cache w q")
  case None
  then show ?thesis by (simp add: ask_openai_cached_miss)
next
  case (Some v)
  then show ?thesis by (simp add: ask_openai_cached_hit)
qed

lemma ask_openai_cached_again:
  "ask_openai_cached e q (snd (ask_openai_cached e q w)) = ask_openai_cached e q w"
  by (simp add: ask_openai_cached_hit [OF ask_openai_cached_stores])

lemma ask_openai_cached_bodies_le:
  "length (bodies (snd (ask_openai_cached e q w))) \<le> length (bodies w) + 1"
proof (cases "cache w q")
  case None
  then show ?thesis by (simp add: ask_openai_cached_miss)
next
  case (Some v)
  then show ?thesis by (simp add: ask_openai_cached_hit)
qed

lemma first_pair: "hd qa_pairs \<in> set qa_pairs"
  by (simp add: qa_pairs_def)

lemma first_question:
  "question (hd qa_pairs) =
     cp ''My chief stew and chef are in conflict two days before a busy charter. How do I '' @
     cp ''de-escalate this without taking sides or compromising service?''"
  by (simp add: qa_pairs_def)

lemma static_qa_of_with: "static_qa_of es = static_qa_with lower es"
  by (simp add: static_qa_of_def static_qa_with_def)

lemma static_qa_with_snoc:
  "static_qa_with low (es @ [p]) = (static_qa_with low es)(low (question p) \<mapsto> answer p)"
  by (simp add: static_qa_with_def)

lemma static_qa_with_last:
  "low (question p) \<notin> set (map (\<lambda>r. low (question r)) ys) \<Longrightarrow>
   static_qa_with low (xs @ p # ys) (low (question p)) = Some (answer p)"
proof (induction ys rule: rev_induct)
  case Nil
  show ?case by (simp add: static_qa_with_snoc)
next
  case (snoc y ys)
  have "static_qa_with low (xs @ p # ys @ [y]) = static_qa_with low ((xs @ p # ys) @ [y])" by simp
  with snoc show ?case by (simp add: static_qa_with_snoc del: append_assoc)
qed

lemma static_qa_with_distinct:
  assumes "distinct (map (\<lambda>r. low (question r)) es)" and "p \<in> set es"
  shows "static_qa_with low es (low (question p)) = Some (answer p)"
proof -
  from \<open>p \<in> set es\<close> obtain xs ys where es: "es = xs @ p # ys" by (auto dest: split_list)
  with assms(1) have "low (question p) \<notin> set (map (\<lambda>r. low (question r)) ys)" by auto
  then show ?thesis unfolding es by (rule static_qa_with_last)
qed

lemma fuel_texts:
  "lower (cp ''Fuel?'') = cp ''fuel?''" "lower (cp ''FUEL?'') = cp ''fuel?''"
  "lower (cp ''Crew?'') = cp ''crew?''" "lower (cp '' Fuel? '') = cp '' fuel? ''"
  "strip (cp ''Fuel?'') = cp ''Fuel?''" "strip (cp '' Fuel? '') = cp ''Fuel?''"
  "cp ''fuel?'' \<noteq> cp ''crew?''" "cp ''fuel?'' \<noteq> cp '' fuel? ''"
  by (simp_all add: strip_def is_space_def lower_def lower_cp_def cp_def)

text \<open>
  Claim C9, as the code has it. The key of an entry is its question lowered, and nothing
  is trimmed when the index is built. For every lowering function \<open>low\<close>, and so for
  \<^verbatim>\<open>str.lower\<close> itself: of two entries whose questions lower to the same key the later one
  is the one stored (when no entry after it has that key again), whatever stood there
  before; and when the lowered questions of the entries are distinct, the answer of every
  entry is stored under its lowered question. The index of the model is the instance for
  \<open>lower\<close>.
\<close>

theorem static_qa_with_last_write_wins:
  "static_qa_of es = static_qa_with lower es \<and>
   (low (question p1) = low (question p2) \<and>
      low (question p2) \<notin> set (map (\<lambda>r. low (question r)) zs) \<longrightarrow>
      static_qa_with low (xs @ p1 # ys @ p2 # zs) (low (question p1)) = Some (answer p2)) \<and>
   (distinct (map (\<lambda>r. low (question r)) es) \<longrightarrow>
      (\<forall>r \<in> set es. static_qa_with low es (low (question r)) = Some (answer r)))"
proof (intro conjI impI ballI)
  show "static_qa_of es = static_qa_with lower es" by (rule static_qa_of_with)
next
  assume a: "low (question p1) = low (question p2) \<and>
      low (question p2) \<notin> set (map (\<lambda>r. low (question r)) zs)"
  have "static_qa_with low ((xs @ p1 # ys) @ p2 # zs) (low (question p2)) = Some (answer p2)"
    using a by (intro static_qa_with_last) blast
  with a show "static_qa_with low (xs @ p1 # ys @ p2 # zs) (low (question p1)) = Some (answer p2)"
    by simp
next
  fix r
  assume "distinct (map (\<lambda>r. low (question r)) es)" and "r \<in> set es"
  then show "static_qa_with low es (low (question r)) = Some (answer r)"
    by (rule static_qa_with_distinct)
qed

theorem static_qa_with_last_write_wins_witness:
  "lower (cp ''Fuel?'') = lower (cp ''FUEL?'') \<and>
   static_qa_of [\<lparr>question = cp ''Fuel?'', answer = cp ''first''\<rparr>,
                 \<lparr>question = cp ''Crew?'', answer = cp ''second''\<rparr>,
                 \<lparr>question = cp ''FUEL?'', answer = cp ''third''\<rparr>] (cp ''fuel?'') = Some (cp ''third'') \<and>
   distinct (map (\<lambda>r. lower (question r))
     [\<lparr>question = cp ''Fuel?'', answer = cp ''first''\<rparr>, \<lparr>question = cp ''Crew?'', answer = cp ''second''\<rparr>]) \<and>
   static_qa_of [\<lparr>question = cp ''Fuel?'', answer = cp ''first''\<rparr>,
                 \<lparr>question = cp ''Crew?'', answer = cp ''second''\<rparr>] (cp ''fuel?'') = Some (cp ''first'') \<and>
   static_qa_of [\<lparr>question = cp ''Fuel?'', answer = cp ''first''\<rparr>,
                 \<lparr>question = cp ''Crew?'', answer = cp ''second''\<rparr>] (cp ''crew?'') = Some (cp ''second'')"
proof -
  let ?f = "\<lparr>question = cp ''Fuel?'', answer = cp ''first''\<rparr>"
  let ?c = "\<lparr>question = cp ''Crew?'', answer = cp ''second''\<rparr>"
  let ?F = "\<lparr>question = cp ''FUEL?'', answer = cp ''third''\<rparr>"
  from static_qa_with_last_write_wins [of "[?f, ?c, ?F]" lower ?f ?F "[]" "[]" "[?c]"]
    static_qa_with_last_write_wins [of "[?f, ?c]" lower ?f ?F "[]" "[]" "[?c]"]
  show ?thesis by (simp add: fuel_texts)
qed

text \<open>
  Against claim C9 as it is stated, with keys that are trimmed and lowered: the questions
  \<^verbatim>\<open>"Fuel?"\<close> and \<^verbatim>\<open>" Fuel? "\<close> have the same trimmed and lowered text, yet the later
  entry does not replace the earlier one. It is stored under its own untrimmed key, the
  trimmed key still gives the answer of the earlier entry, and an index built from the
  padded entry alone has nothing under the trimmed key.
\<close>

theorem static_qa_of_keys_untrimmed:
  "lower (strip (cp ''Fuel?'')) = lower (strip (cp '' Fuel? '')) \<and>
   static_qa_of [\<lparr>question = cp ''Fuel?'', answer = cp ''first''\<rparr>,
                 \<lparr>question = cp '' Fuel? '', answer = cp ''second''\<rparr>]
     (lower (strip (cp '' Fuel? ''))) = Some (cp ''first'') \<and>
   static_qa_of [\<lparr>question = cp ''Fuel?'', answer = cp ''first''\<rparr>,
                 \<lparr>question = cp '' Fuel? '', answer = cp ''second''\<rparr>]
     (cp '' fuel? '') = Some (cp ''second'') \<and>
   static_qa_of [\<lparr>question = cp '' Fuel? '', answer = cp ''second''\<rparr>]
     (lower (strip (cp '' Fuel? ''))) = None"
  by (simp add: static_qa_of_def fuel_texts)

text \<open>
  Claim C1. For every pair of the curated list and every input whose stripped and
  lowered text is the lowered question of the pair, \<open>get_answer\<close> returns the answer of
  the pair and leaves the state as it was (no call of \<open>ask_openai_cached\<close>, of the
  provider or of the cache), and the chat form appends the user message and then the
  answer of the pair as a bot message marked \<open>is_static_answer\<close>, again without a call of
  \<open>ask_openai_cached\<close> or of the provider.
\<close>

theorem curated_question_static_answer:
  assumes p: "p \<in> set qa_pairs" and key: "lower (strip user_input) = lower (question p)"
  shows "get_answer e user_input w = (answer p, w) \<and>
         fst (submit_chat_form e user_email c True user_input w) =
           c\<lparr>messages := messages c @
               [\<lparr>role = cp ''user'', content = strip user_input, is_static_answer = False\<rparr>,
                \<lparr>role = cp ''bot'', content = answer p, is_static_answer = True\<rparr>]\<rparr> \<and>
         bodies (snd (submit_chat_form e user_email c True user_input w)) = bodies w \<and>
         requests (snd (submit_chat_form e user_email c True user_input w)) = requests w \<and>
         sleeps (snd (submit_chat_form e user_email c True user_input w)) = sleeps w \<and>
         cache (snd (submit_chat_form e user_email c True user_input w)) = cache w"
proof -
  from p key have hit: "STATIC_QA (lower (strip user_input)) = Some (answer p)"
    by (simp add: static_qa_curated)
  from curated_key_nonempty [OF p] key have "lower (strip user_input) \<noteq> []"
    by simp
  then have "strip user_input \<noteq> []"
    by (simp add: lower_Nil)
  from submit_chat_form_static [OF this hit] hit show ?thesis
    by (simp add: get_answer_def save_chat_to_db_frame)
qed

theorem curated_question_static_answer_witness:
  "hd qa_pairs \<in> set qa_pairs \<and>
   lower (strip (cp ''   MY CHIEF STEW AND CHEF ARE IN CONFLICT TWO DAYS BEFORE A BUSY CHARTER. '' @
                 cp ''How do I de-escalate this without taking sides or compromising SERVICE?  '')) =
     lower (question (hd qa_pairs)) \<and>
   get_answer (scripted [] [])
     (cp ''   MY CHIEF STEW AND CHEF ARE IN CONFLICT TWO DAYS BEFORE A BUSY CHARTER. '' @
      cp ''How do I de-escalate this without taking sides or compromising SERVICE?  '') fresh_world =
     (answer (hd qa_pairs), fresh_world) \<and>
   is_static_answer (last (messages (fst (submit_chat_form (scripted [] []) (cp ''Guest'')
     \<lparr>title = cp ''Chat 1'', messages = []\<rparr> True
     (cp ''   MY CHIEF STEW AND CHEF ARE IN CONFLICT TWO DAYS BEFORE A BUSY CHARTER. '' @
      cp ''How do I de-escalate this without taking sides or compromising SERVICE?  '') fresh_world)))) \<and>
   content (last (messages (fst (submit_chat_form (scripted [] []) (cp ''Guest'')
     \<lparr>title = cp ''Chat 1'', messages = []\<rparr> True
     (cp ''   MY CHIEF STEW AND CHEF ARE IN CONFLICT TWO DAYS BEFORE A BUSY CHARTER. '' @
      cp ''How do I de-escalate this without taking sides or compromising SERVICE?  '') fresh_world)))) =
     answer (hd qa_pairs) \<and>
   requests (snd (submit_chat_form (scripted [] []) (cp ''Guest'')
     \<lparr>title = cp ''Chat 1'', messages = []\<rparr> True
     (cp ''   MY CHIEF STEW AND CHEF ARE IN CONFLICT TWO DAYS BEFORE A BUSY CHARTER. '' @
      cp ''How do I de-escalate this without taking sides or compromising SERVICE?  '') fresh_world)) = []"
proof -
  let ?u = "cp ''   MY CHIEF STEW AND CHEF ARE IN CONFLICT TWO DAYS BEFORE A BUSY CHARTER. '' @
            cp ''How do I de-escalate this without taking sides or compromising SERVICE?  ''"
  have key: "lower (strip ?u) = lower (question (hd qa_pairs))"
    unfolding first_question by (simp add: strip_def is_space_def lower_def lower_cp_def cp_def)
  from curated_question_static_answer [OF first_pair key, of "scripted [] []" fresh_world "cp ''Guest''"
      "\<lparr>title = cp ''Chat 1'', messages = []\<rparr>"] first_pair key
  show ?thesis by (simp add: fresh_world_fields)
qed

section \<open>Facts about the cache, the chat form and persistence\<close>






lemma monaco_miss:
  "STATIC_QA (cp ''monaco weather?'') = None"
  by (rule static_qa_miss, unfold static_keys) (simp add: cp_def)

lemma monaco_keys:
  "strip (cp ''Monaco weather?'') = cp ''Monaco weather?''"
  "strip (cp ''MONACO WEATHER?'') = cp ''MONACO WEATHER?''"
  "strip (cp '' Monaco weather? '') = cp ''Monaco weather?''"
  "lower (cp ''Monaco weather?'') = cp ''monaco weather?''"
  "lower (cp ''MONACO WEATHER?'') = cp ''monaco weather?''"
  by (simp_all add: strip_def is_space_def lower_def lower_cp_def cp_def)

lemma monaco_distinct:
  "cp ''Monaco weather?'' \<noteq> cp ''MONACO WEATHER?''"
  "cp ''Monaco weather?'' \<noteq> cp '' Monaco weather? ''"
  "cp ''Monaco weather?'' \<noteq> []"
  "cp ''MONACO WEATHER?'' \<noteq> []"
  by (simp_all add: cp_def)

text \<open>
  Claim C2. For an input that misses the static index, a second \<open>get_answer\<close> with the
  same text returns what the first returned and changes nothing: the body of
  \<open>ask_openai_cached\<close> runs at most once over the two calls and the provider is not called
  by the second. The same holds when the text is sent twice through the chat form: the
  second bot message has the content of the first, and the second run neither executes
  the body nor calls the provider.
\<close>

theorem repeated_input_one_completion:
  assumes miss: "STATIC_QA (lower (strip user_input)) = None"
  shows "get_answer e user_input (snd (get_answer e user_input w)) = get_answer e user_input w \<and>
         length (bodies (snd (get_answer e user_input w))) \<le> length (bodies w) + 1 \<and>
         (let r1 = submit_chat_form e user_email c True user_input w;
              r2 = submit_chat_form e user_email (fst r1) True user_input (snd r1)
          in length (bodies (snd r1)) \<le> length (bodies w) + 1 \<and>
             bodies (snd r2) = bodies (snd r1) \<and>
             requests (snd r2) = requests (snd r1) \<and>
             content (last (messages (fst r2))) = content (last (messages (fst r1))))"
proof -
  have g: "get_answer e user_input w' = ask_openai_cached e user_input w'" for w'
    using miss by (simp add: get_answer_def)
  have first: "get_answer e user_input (snd (get_answer e user_input w)) = get_answer e user_input w"
    by (simp add: g ask_openai_cached_again)
  have second: "length (bodies (snd (get_answer e user_input w))) \<le> length (bodies w) + 1"
    using ask_openai_cached_bodies_le [of e user_input w] by (simp add: g)
  have form: "let r1 = submit_chat_form e user_email c True user_input w;
              r2 = submit_chat_form e user_email (fst r1) True user_input (snd r1)
          in length (bodies (snd r1)) \<le> length (bodies w) + 1 \<and>
             bodies (snd r2) = bodies (snd r1) \<and>
             requests (snd r2) = requests (snd r1) \<and>
             content (last (messages (fst r2))) = content (last (messages (fst r1)))"
  proof (cases "strip user_input = []")
    case True
    then show ?thesis by (simp add: submit_chat_form_blank)
  next
    case False
    let ?a = "ask_openai_cached e (strip user_input) w"
    let ?s = "snd (submit_chat_form e user_email c True user_input w)"
    have "cache ?s (strip user_input) = Some (fst ?a)"
      by (simp add: submit_chat_form_ai [OF False miss] save_chat_to_db_frame ask_openai_cached_stores)
    then have again: "ask_openai_cached e (strip user_input) ?s = (fst ?a, ?s)"
      by (rule ask_openai_cached_hit)
    have le: "length (bodies ?s) \<le> length (bodies w) + 1"
      using ask_openai_cached_bodies_le [of e "strip user_input" w]
      by (simp add: submit_chat_form_ai [OF False miss] save_chat_to_db_frame)
    show ?thesis
      using le
      by (simp add: Let_def submit_chat_form_ai [OF False miss, of e user_email _ ?s] again
          save_chat_to_db_frame)
        (simp add: submit_chat_form_ai [OF False miss])
  qed
  from first second form show ?thesis by blast
qed

theorem repeated_input_one_completion_witness:
  "STATIC_QA (lower (strip (cp ''Monaco weather?''))) = None \<and>
   get_answer (scripted [Completion (cp ''Sunny.''), Completion (cp ''Rainy.'')] []) (cp ''Monaco weather?'')
     (snd (get_answer (scripted [Completion (cp ''Sunny.''), Completion (cp ''Rainy.'')] [])
            (cp ''Monaco weather?'') fresh_world)) =
   get_answer (scripted [Completion (cp ''Sunny.''), Completion (cp ''Rainy.'')] [])
     (cp ''Monaco weather?'') fresh_world \<and>
   fst (get_answer (scripted [Completion (cp ''Sunny.''), Completion (cp ''Rainy.'')] [])
     (cp ''Monaco weather?'') fresh_world) = cp ''Sunny.'' \<and>
   requests (snd (get_answer (scripted [Completion (cp ''Sunny.''), Completion (cp ''Rainy.'')] [])
     (cp ''Monaco weather?'') fresh_world)) = [cp ''Monaco weather?'']"
proof -
  let ?e = "scripted [Completion (cp ''Sunny.''), Completion (cp ''Rainy.'')] []"
  have miss: "STATIC_QA (lower (strip (cp ''Monaco weather?''))) = None"
    by (simp add: monaco_keys monaco_miss)
  have s: "strip (cp ''Sunny.'') = cp ''Sunny.''"
    by (simp add: strip_def is_space_def cp_def)
  have one: "get_answer ?e (cp ''Monaco weather?'') fresh_world =
      (cp ''Sunny.'', fresh_world\<lparr>bodies := [cp ''Monaco weather?''], requests := [cp ''Monaco weather?''],
         cache := [cp ''Monaco weather?'' \<mapsto> cp ''Sunny.'']\<rparr>)"
    using miss
    by (simp add: get_answer_def ask_openai_cached_def ask_openai_body_def range3 scripted_provider
        fresh_world_def s)
  from repeated_input_one_completion [OF miss, of ?e fresh_world] miss one
  show ?thesis by simp
qed

text \<open>
  Claim C8, as the code has it. The cache is keyed by the very string that is passed to
  \<open>ask_openai_cached\<close>, which is never lowered. \<open>get_answer\<close> passes the raw input: two
  inputs that miss the static index and differ in any way, by letter case or by
  surrounding whitespace, are two cache keys, and each runs the body of its own. The chat
  form passes the stripped input: inputs whose stripped texts differ (by letter case, for
  one) are two cache keys and each runs the body, while inputs with the same stripped
  text share one key, and the second run executes no body and calls no provider.
\<close>

theorem cache_keyed_by_passed_text:
  assumes miss_u: "STATIC_QA (lower (strip u)) = None"
    and miss_v: "STATIC_QA (lower (strip v)) = None"
  shows "(cache w u = None \<longrightarrow>
            cache (snd (get_answer e u w)) = (cache w)(u \<mapsto> fst (get_answer e u w))) \<and>
         (u \<noteq> v \<and> cache w u = None \<and> cache w v = None \<longrightarrow>
            bodies (snd (get_answer e v (snd (get_answer e u w)))) = bodies w @ [u, v]) \<and>
         (let r1 = submit_chat_form e user_email c True u w;
              r2 = submit_chat_form e user_email (fst r1) True v (snd r1)
          in (strip u \<noteq> [] \<and> cache w (strip u) = None \<longrightarrow>
                cache (snd r1) = (cache w)(strip u \<mapsto> content (last (messages (fst r1))))) \<and>
             (strip u \<noteq> [] \<and> strip v \<noteq> [] \<and> strip u \<noteq> strip v \<and>
              cache w (strip u) = None \<and> cache w (strip v) = None \<longrightarrow>
                bodies (snd r2) = bodies w @ [strip u, strip v]) \<and>
             (strip u = strip v \<longrightarrow>
                bodies (snd r2) = bodies (snd r1) \<and> requests (snd r2) = requests (snd r1)))"
proof -
  have g: "get_answer e x w' = ask_openai_cached e x w'"
    if "STATIC_QA (lower (strip x)) = None" for x w'
    using that by (simp add: get_answer_def)
  have a: "cache w u = None \<longrightarrow>
      cache (snd (get_answer e u w)) = (cache w)(u \<mapsto> fst (get_answer e u w))"
    by (simp add: g [OF miss_u] ask_openai_cached_miss)
  have b: "u \<noteq> v \<and> cache w u = None \<and> cache w v = None \<longrightarrow>
      bodies (snd (get_answer e v (snd (get_answer e u w)))) = bodies w @ [u, v]"
  proof
    assume h: "u \<noteq> v \<and> cache w u = None \<and> cache w v = None"
    then have one: "bodies (snd (ask_openai_cached e u w)) = bodies w @ [u]"
      and "cache (snd (ask_openai_cached e u w)) v = None"
      by (auto simp: ask_openai_cached_miss)
    then have "bodies (snd (ask_openai_cached e v (snd (ask_openai_cached e u w)))) = bodies w @ [u, v]"
      by (simp add: ask_openai_cached_miss)
    then show "bodies (snd (get_answer e v (snd (get_answer e u w)))) = bodies w @ [u, v]"
      by (simp add: g [OF miss_u] g [OF miss_v])
  qed
  let ?r1 = "submit_chat_form e user_email c True u w"
  let ?r2 = "submit_chat_form e user_email (fst ?r1) True v (snd ?r1)"
  have c1: "strip u \<noteq> [] \<and> cache w (strip u) = None \<longrightarrow>
      cache (snd ?r1) = (cache w)(strip u \<mapsto> content (last (messages (fst ?r1))))"
    by (simp add: submit_chat_form_ai [OF _ miss_u] save_chat_to_db_frame ask_openai_cached_miss)
  have c2: "strip u \<noteq> [] \<and> strip v \<noteq> [] \<and> strip u \<noteq> strip v \<and>
      cache w (strip u) = None \<and> cache w (strip v) = None \<longrightarrow>
      bodies (snd ?r2) = bodies w @ [strip u, strip v]"
  proof
    assume h: "strip u \<noteq> [] \<and> strip v \<noteq> [] \<and> strip u \<noteq> strip v \<and>
      cache w (strip u) = None \<and> cache w (strip v) = None"
    then have nu: "strip u \<noteq> []" and nv: "strip v \<noteq> []" by simp_all
    from h have one: "bodies (snd ?r1) = bodies w @ [strip u]"
      and "cache (snd ?r1) (strip v) = None"
      by (auto simp: submit_chat_form_ai [OF nu miss_u] save_chat_to_db_frame ask_openai_cached_miss)
    then show "bodies (snd ?r2) = bodies w @ [strip u, strip v]"
      by (simp add: submit_chat_form_ai [OF nv miss_v] save_chat_to_db_frame ask_openai_cached_miss)
  qed
  have c3: "strip u = strip v \<longrightarrow>
      bodies (snd ?r2) = bodies (snd ?r1) \<and> requests (snd ?r2) = requests (snd ?r1)"
  proof
    assume same: "strip u = strip v"
    show "bodies (snd ?r2) = bodies (snd ?r1) \<and> requests (snd ?r2) = requests (snd ?r1)"
    proof (cases "strip u = []")
      case True
      with same show ?thesis by (simp add: submit_chat_form_blank)
    next
      case False
      with same have nv: "strip v \<noteq> []" by simp
      have "cache (snd ?r1) (strip v) = Some (fst (ask_openai_cached e (strip u) w))"
        by (simp add: submit_chat_form_ai [OF False miss_u] save_chat_to_db_frame
            ask_openai_cached_stores same [symmetric])
      then have "ask_openai_cached e (strip v) (snd ?r1) =
          (fst (ask_openai_cached e (strip u) w), snd ?r1)"
        by (rule ask_openai_cached_hit)
      then show ?thesis
        by (simp add: submit_chat_form_ai [OF nv miss_v] save_chat_to_db_frame)
    qed
  qed
  from a b c1 c2 c3 show ?thesis by (simp add: Let_def)
qed

theorem cache_keyed_by_passed_text_witness:
  "STATIC_QA (lower (strip (cp ''Monaco weather?''))) = None \<and>
   STATIC_QA (lower (strip (cp ''MONACO WEATHER?''))) = None \<and>
   cp ''Monaco weather?'' \<noteq> cp ''MONACO WEATHER?'' \<and>
   lower (cp ''Monaco weather?'') = lower (cp ''MONACO WEATHER?'') \<and>
   bodies (snd (get_answer (scripted [] []) (cp ''MONACO WEATHER?'')
     (snd (get_answer (scripted [] []) (cp ''Monaco weather?'') fresh_world)))) =
     [cp ''Monaco weather?'', cp ''MONACO WEATHER?''] \<and>
   bodies (snd (submit_chat_form (scripted [] []) (cp ''Guest'')
     (fst (submit_chat_form (scripted [] []) (cp ''Guest'') \<lparr>title = cp ''Chat 1'', messages = []\<rparr> True
             (cp ''Monaco weather?'') fresh_world))
     True (cp ''MONACO WEATHER?'')
     (snd (submit_chat_form (scripted [] []) (cp ''Guest'') \<lparr>title = cp ''Chat 1'', messages = []\<rparr> True
             (cp ''Monaco weather?'') fresh_world)))) =
     [cp ''Monaco weather?'', cp ''MONACO WEATHER?'']"
proof -
  have mu: "STATIC_QA (lower (strip (cp ''Monaco weather?''))) = None"
    by (simp add: monaco_keys monaco_miss)
  have mv: "STATIC_QA (lower (strip (cp ''MONACO WEATHER?''))) = None"
    by (simp add: monaco_keys monaco_miss)
  from cache_keyed_by_passed_text [OF mu mv, of fresh_world "scripted [] []" "cp ''Guest''"
      "\<lparr>title = cp ''Chat 1'', messages = []\<rparr>"] mu mv monaco_distinct
  show ?thesis by (simp add: Let_def monaco_keys fresh_world_fields)
qed

text \<open>
  Against claim C8 as it is stated: sent through the chat form one after the other,
  \<^verbatim>\<open>"Monaco weather?"\<close> and \<^verbatim>\<open>" Monaco weather? "\<close> differ only in surrounding
  whitespace and both miss the static index, yet the body of \<open>ask_openai_cached\<close> runs
  once and the provider is called once: the form strips the text before it reaches the
  cache.
\<close>

theorem chat_form_strips_cache_key:
  "cp ''Monaco weather?'' \<noteq> cp '' Monaco weather? '' \<and>
   STATIC_QA (lower (strip (cp ''Monaco weather?''))) = None \<and>
   STATIC_QA (lower (strip (cp '' Monaco weather? ''))) = None \<and>
   bodies (snd (submit_chat_form (scripted [] []) (cp ''Guest'')
     (fst (submit_chat_form (scripted [] []) (cp ''Guest'') \<lparr>title = cp ''Chat 1'', messages = []\<rparr> True
             (cp ''Monaco weather?'') fresh_world))
     True (cp '' Monaco weather? '')
     (snd (submit_chat_form (scripted [] []) (cp ''Guest'') \<lparr>title = cp ''Chat 1'', messages = []\<rparr> True
             (cp ''Monaco weather?'') fresh_world)))) = [cp ''Monaco weather?''] \<and>
   requests (snd (submit_chat_form (scripted [] []) (cp ''Guest'')
     (fst (submit_chat_form (scripted [] []) (cp ''Guest'') \<lparr>title = cp ''Chat 1'', messages = []\<rparr> True
             (cp ''Monaco weather?'') fresh_world))
     True (cp '' Monaco weather? '')
     (snd (submit_chat_form (scripted [] []) (cp ''Guest'') \<lparr>title = cp ''Chat 1'', messages = []\<rparr> True
             (cp ''Monaco weather?'') fresh_world)))) = [cp ''Monaco weather?'']"
proof -
  let ?e = "scripted [] []"
  let ?c = "\<lparr>title = cp ''Chat 1'', messages = []\<rparr>"
  let ?r1 = "submit_chat_form ?e (cp ''Guest'') ?c True (cp ''Monaco weather?'') fresh_world"
  have mu: "STATIC_QA (lower (strip (cp ''Monaco weather?''))) = None"
    by (simp add: monaco_keys monaco_miss)
  have mv: "STATIC_QA (lower (strip (cp '' Monaco weather? ''))) = None"
    by (simp add: monaco_keys monaco_miss)
  have nu: "strip (cp ''Monaco weather?'') \<noteq> []" and nv: "strip (cp '' Monaco weather? '') \<noteq> []"
    by (simp_all add: monaco_keys monaco_distinct)
  have first: "bodies (snd ?r1) = [cp ''Monaco weather?''] \<and> requests (snd ?r1) = [cp ''Monaco weather?'']"
    by (simp add: submit_chat_form_ai [OF nu mu] save_chat_to_db_frame monaco_keys
        ask_openai_cached_def ask_openai_body_def range3 scripted_provider fresh_world_def)
  have hit: "cache (snd ?r1) (cp ''Monaco weather?'') = Some (fst (ask_openai_cached ?e (cp ''Monaco weather?'') fresh_world))"
    by (simp add: submit_chat_form_ai [OF nu mu] save_chat_to_db_frame monaco_keys
        ask_openai_cached_stores)
  have "ask_openai_cached ?e (cp ''Monaco weather?'') (snd ?r1) =
      (fst (ask_openai_cached ?e (cp ''Monaco weather?'') fresh_world), snd ?r1)"
    using hit by (rule ask_openai_cached_hit)
  then have second: "bodies (snd (submit_chat_form ?e (cp ''Guest'') (fst ?r1) True
         (cp '' Monaco weather? '') (snd ?r1))) = bodies (snd ?r1) \<and>
       requests (snd (submit_chat_form ?e (cp ''Guest'') (fst ?r1) True
         (cp '' Monaco weather? '') (snd ?r1))) = requests (snd ?r1)"
    by (simp add: submit_chat_form_ai [OF nv mv] save_chat_to_db_frame monaco_keys)
  from first second mu mv monaco_distinct show ?thesis by simp
qed

section \<open>Facts about render\_chat\<close>

lemma press_button_other:
  "click \<noteq> Some (b, idx) \<Longrightarrow> press_button e username chat_title click idx msg st b = st"
  by (cases st) (simp add: press_button_def)

lemma render_message_no_click:
  "\<forall>b. click \<noteq> Some (b, idx) \<Longrightarrow> render_message e username chat_title click idx st = st"
  by (simp add: render_message_def Let_def buttons_def press_button_other)

lemma render_chat_loop_no_click:
  "\<forall>b j. idx \<le> j \<longrightarrow> click \<noteq> Some (b, j) \<Longrightarrow>
   render_chat_loop e username chat_title click idx st = st"
proof (induction e username chat_title click idx st rule: render_chat_loop.induct)
  case (1 e username chat_title click idx st)
  from "1.prems" have here: "render_message e username chat_title click idx st = st"
    by (intro render_message_no_click) simp
  show ?case
  proof (cases "idx < length (fst st)")
    case True
    from "1.prems" have "\<forall>b j. idx + 1 \<le> j \<longrightarrow> click \<noteq> Some (b, j)" by simp
    from "1.IH" [OF True this] here True show ?thesis
      by (subst render_chat_loop.simps) simp
  next
    case False
    then show ?thesis by (subst render_chat_loop.simps) simp
  qed
qed

lemma render_chat_loop_skip:
  assumes "idx \<le> i" and "i < length (fst st)"
  shows "render_chat_loop e username chat_title (Some (b, i)) idx st =
         render_chat_loop e username chat_title (Some (b, i)) i st"
  using assms
proof (induction idx rule: inc_induct)
  case base
  show ?case ..
next
  case (step n)
  have "render_message e username chat_title (Some (b, i)) n st = st"
    using step.hyps by (intro render_message_no_click) simp
  with step show ?case
    by (subst render_chat_loop.simps) simp
qed

lemma button_texts:
  "cp ''Ask OpenAI'' \<noteq> cp ''Ask a Specialist''" "cp ''Ask OpenAI'' \<noteq> cp ''Ask Your Peers''"
  "cp ''Ask OpenAI'' \<noteq> cp ''Ask on Instagram''" "cp ''bot'' \<noteq> cp ''user''"
  by (simp_all add: cp_def)

lemma press_ask_openai:
  "press_button e username chat_title (Some (cp ''Ask OpenAI'', i)) i msg (msgs, w) (cp ''Ask OpenAI'') =
    (insert_at (i + 1)
       \<lparr>role = cp ''bot'', content = fst (ask_openai_cached e (content msg) w),
        is_static_answer = False\<rparr> msgs,
     save_chat_to_db e username
       \<lparr>title = chat_title,
        messages = insert_at (i + 1)
          \<lparr>role = cp ''bot'', content = fst (ask_openai_cached e (content msg) w),
           is_static_answer = False\<rparr> msgs\<rparr>
       (snd (ask_openai_cached e (content msg) w)))"
  by (simp add: press_button_def Let_def split_def)

lemma buttons_ask_openai:
  "foldl (press_button e username chat_title (Some (cp ''Ask OpenAI'', i)) i msg) (msgs, w) buttons =
   press_button e username chat_title (Some (cp ''Ask OpenAI'', i)) i msg (msgs, w) (cp ''Ask OpenAI'')"
proof -
  have other: "press_button e username chat_title (Some (cp ''Ask OpenAI'', i)) i msg (msgs, w) b = (msgs, w)"
    if "cp ''Ask OpenAI'' \<noteq> b" for b
    using that by (intro press_button_other) simp
  show ?thesis
    unfolding buttons_def
    by (simp only: foldl.simps other [OF button_texts(1)] other [OF button_texts(2)]
        other [OF button_texts(3)])
qed

lemma render_message_ask_openai:
  assumes "role (msgs ! i) \<noteq> cp ''user''" and "is_static_answer (msgs ! i)"
  shows "render_message e username chat_title (Some (cp ''Ask OpenAI'', i)) i (msgs, w) =
    (insert_at (i + 1)
       \<lparr>role = cp ''bot'', content = fst (ask_openai_cached e (content (msgs ! i)) w),
        is_static_answer = False\<rparr> msgs,
     save_chat_to_db e username
       \<lparr>title = chat_title,
        messages = insert_at (i + 1)
          \<lparr>role = cp ''bot'', content = fst (ask_openai_cached e (content (msgs ! i)) w),
           is_static_answer = False\<rparr> msgs\<rparr>
       (snd (ask_openai_cached e (content (msgs ! i)) w)))"
proof -
  have "render_message e username chat_title (Some (cp ''Ask OpenAI'', i)) i (msgs, w) =
      foldl (press_button e username chat_title (Some (cp ''Ask OpenAI'', i)) i (msgs ! i)) (msgs, w) buttons"
    using assms by (simp add: render_message_def Let_def)
  then show ?thesis
    by (simp only: buttons_ask_openai press_ask_openai)
qed

text \<open>
  A run of \<open>render_chat\<close> started by the button \<^verbatim>\<open>Ask OpenAI\<close> of the static answer at
  index \<open>i\<close>: \<open>ask_openai_cached\<close> is called with the content of that message, its result
  is inserted as a bot message at index \<open>i + 1\<close>, and the chat is saved.
\<close>

lemma render_chat_ask_openai:
  assumes i: "i < length msgs"
    and bot: "role (msgs ! i) \<noteq> cp ''user''" and static: "is_static_answer (msgs ! i)"
  shows "render_chat e username chat_title (Some (cp ''Ask OpenAI'', i)) msgs w =
    (insert_at (i + 1)
       \<lparr>role = cp ''bot'', content = fst (ask_openai_cached e (content (msgs ! i)) w),
        is_static_answer = False\<rparr> msgs,
     save_chat_to_db e username
       \<lparr>title = chat_title,
        messages = insert_at (i + 1)
          \<lparr>role = cp ''bot'', content = fst (ask_openai_cached e (content (msgs ! i)) w),
           is_static_answer = False\<rparr> msgs\<rparr>
       (snd (ask_openai_cached e (content (msgs ! i)) w)))"
proof -
  let ?click = "Some (cp ''Ask OpenAI'', i)"
  let ?st = "render_message e username chat_title ?click i (msgs, w)"
  have "render_chat e username chat_title ?click msgs w =
      render_chat_loop e username chat_title ?click i (msgs, w)"
    unfolding render_chat_def using i by (intro render_chat_loop_skip) simp_all
  also have "\<dots> = render_chat_loop e username chat_title ?click (i + 1) ?st"
    using i by (subst render_chat_loop.simps) simp
  also have "\<dots> = ?st"
    by (intro render_chat_loop_no_click) simp
  finally show ?thesis
    by (simp only: render_message_ask_openai [OF bot static])
qed

lemma insert_at_nth:
  assumes "i \<le> length xs"
  shows "length (insert_at i x xs) = length xs + 1"
    and "insert_at i x xs ! i = x"
    and "\<forall>j<i. insert_at i x xs ! j = xs ! j"
    and "\<forall>j. i \<le> j \<and> j < length xs \<longrightarrow> insert_at i x xs ! (j + 1) = xs ! j"
  using assms by (auto simp: insert_at_def nth_append min_def)




lemma first_answer_differs: "answer (hd qa_pairs) \<noteq> question (hd qa_pairs)"
  apply (simp add: qa_pairs_def)
  apply (simp add: cp_def)
  done

text \<open>
  Claim C6, on a transcript of three messages whose second is the static answer to the
  first curated question: the button \<^verbatim>\<open>Ask OpenAI\<close> of that answer inserts the new bot
  message at index 2, between the static answer and the message that followed it, but
  the one request sent to the provider carries the text of the static answer, not the
  question that it answers.
\<close>

theorem render_chat_ask_openai_sends_answer:
  "(let p = hd qa_pairs;
        msgs = [\<lparr>role = cp ''user'', content = question p, is_static_answer = False\<rparr>,
                \<lparr>role = cp ''bot'', content = answer p, is_static_answer = True\<rparr>,
                \<lparr>role = cp ''user'', content = cp ''Thanks'', is_static_answer = False\<rparr>];
        r = render_chat (scripted [Completion (cp ''More detail.'')] []) (cp ''Guest'') (cp ''Chat 1'')
              (Some (cp ''Ask OpenAI'', 1)) msgs fresh_world
    in fst r = [msgs ! 0, msgs ! 1,
                \<lparr>role = cp ''bot'', content = cp ''More detail.'', is_static_answer = False\<rparr>,
                msgs ! 2] \<and>
       requests (snd r) = [answer p] \<and>
       answer p \<noteq> question p)"
proof -
  let ?p = "hd qa_pairs"
  let ?e = "scripted [Completion (cp ''More detail.'')] []"
  let ?msgs = "[\<lparr>role = cp ''user'', content = question ?p, is_static_answer = False\<rparr>,
                \<lparr>role = cp ''bot'', content = answer ?p, is_static_answer = True\<rparr>,
                \<lparr>role = cp ''user'', content = cp ''Thanks'', is_static_answer = False\<rparr>]"
  have s: "strip (cp ''More detail.'') = cp ''More detail.''"
    by (simp add: strip_def is_space_def cp_def)
  have ask: "ask_openai_cached ?e (answer ?p) fresh_world =
      (cp ''More detail.'', fresh_world\<lparr>bodies := [answer ?p], requests := [answer ?p],
         cache := [answer ?p \<mapsto> cp ''More detail.'']\<rparr>)"
    by (simp add: ask_openai_cached_def ask_openai_body_def range3 scripted_provider
        fresh_world_def s)
  have "render_chat ?e (cp ''Guest'') (cp ''Chat 1'') (Some (cp ''Ask OpenAI'', 1)) ?msgs fresh_world =
    (insert_at (1 + 1)
       \<lparr>role = cp ''bot'', content = fst (ask_openai_cached ?e (content (?msgs ! 1)) fresh_world),
        is_static_answer = False\<rparr> ?msgs,
     save_chat_to_db ?e (cp ''Guest'')
       \<lparr>title = cp ''Chat 1'',
        messages = insert_at (1 + 1)
          \<lparr>role = cp ''bot'', content = fst (ask_openai_cached ?e (content (?msgs ! 1)) fresh_world),
           is_static_answer = False\<rparr> ?msgs\<rparr>
       (snd (ask_openai_cached ?e (content (?msgs ! 1)) fresh_world)))"
    by (rule render_chat_ask_openai) (simp_all add: button_texts)
  then show ?thesis
    using first_answer_differs
    by (simp add: Let_def ask insert_at_def save_chat_to_db_frame)
qed

end
